theory Spec2Isabelle
  imports Complex_Main
begin

section \<open>JavaScript values\<close>

text \<open>
  The engine of \<^verbatim>\<open>src/DemoHMI/liveDataAPI/index.js\<close> observes tag values that are
  dynamically typed. A tag value is a JavaScript primitive: \<^verbatim>\<open>undefined\<close>,
  \<^verbatim>\<open>null\<close>, a boolean, a number or a string. A number is a finite value, \<^verbatim>\<open>NaN\<close>
  or one of the two infinities; finite doubles are embedded in the rationals (the only
  operations the engine applies to numbers are \<^verbatim>\<open>===\<close>, \<^verbatim>\<open>Number.isFinite\<close> and
  \<^verbatim>\<open>>= 0\<close>, none of which rounds, and \<^verbatim>\<open>-0 === 0\<close>). Object and array values
  compare by reference under \<^verbatim>\<open>===\<close> and are not part of the tag data model.
  Timestamps are integer milliseconds (\<^verbatim>\<open>Date.now()\<close>) or absent (\<^verbatim>\<open>null\<close>).
\<close>

datatype jsnum = Fin rat | NaN | PosInf | NegInf

datatype prim = PUndefined | PNull | PBool bool | PNum jsnum | PStr string

text \<open>\<^verbatim>\<open>a === b\<close> on numbers: \<^verbatim>\<open>NaN\<close> is equal to nothing, itself included.\<close>

fun num_strict_eq :: "jsnum \<Rightarrow> jsnum \<Rightarrow> bool" where
  "num_strict_eq (Fin a) (Fin b) = (a = b)"
| "num_strict_eq PosInf PosInf = True"
| "num_strict_eq NegInf NegInf = True"
| "num_strict_eq _ _ = False"

text \<open>\<^verbatim>\<open>a === b\<close> on primitives: same type and same value.\<close>

fun strict_eq :: "prim \<Rightarrow> prim \<Rightarrow> bool" where
  "strict_eq PUndefined PUndefined = True"
| "strict_eq PNull PNull = True"
| "strict_eq (PBool a) (PBool b) = (a = b)"
| "strict_eq (PNum a) (PNum b) = num_strict_eq a b"
| "strict_eq (PStr a) (PStr b) = (a = b)"
| "strict_eq _ _ = False"

text \<open>\<^verbatim>\<open>a ?? b\<close>: the right operand only when the left one is \<^verbatim>\<open>null\<close> or \<^verbatim>\<open>undefined\<close>.\<close>

definition nullish :: "prim \<Rightarrow> bool" where
  "nullish v = (v = PUndefined \<or> v = PNull)"

definition coalesce :: "prim \<Rightarrow> prim \<Rightarrow> prim" where
  "coalesce a b = (if nullish a then b else a)"

text \<open>
  \<^verbatim>\<open>Number(v)\<close>. The conversion of a string (ECMAScript's StringToNumber) is a built-in
  of the language and not code of the repository; it is the parameter \<open>str2num\<close>.
\<close>

fun Number :: "(string \<Rightarrow> jsnum) \<Rightarrow> prim \<Rightarrow> jsnum" where
  "Number str2num PUndefined = NaN"
| "Number str2num PNull = Fin 0"
| "Number str2num (PBool b) = Fin (if b then 1 else 0)"
| "Number str2num (PNum n) = n"
| "Number str2num (PStr s) = str2num s"

fun isFinite :: "jsnum \<Rightarrow> bool" where
  "isFinite (Fin _) = True"
| "isFinite _ = False"

text \<open>\<^verbatim>\<open>num >= 0\<close>: false when \<^verbatim>\<open>num\<close> is \<^verbatim>\<open>NaN\<close>.\<close>

fun ge_zero :: "jsnum \<Rightarrow> bool" where
  "ge_zero (Fin a) = (0 \<le> a)"
| "ge_zero PosInf = True"
| "ge_zero _ = False"

subsection \<open>Strings\<close>

text \<open>
  A character is a UTF-16 code unit below 256; strings with other code units are outside
  the model. \<^verbatim>\<open>String.prototype.toLowerCase\<close> maps the letters A to Z and the capital
  letters of the range 0xC0 to 0xDE (0xD7, the multiplication sign, apart) to the
  character 0x20 above them and keeps every other character.
\<close>

definition upper_chars :: string where
  "upper_chars =
     ''ABCDEFGHIJKLMNOPQRSTUVWXYZ'' @
     [CHR 0xC0, CHR 0xC1, CHR 0xC2, CHR 0xC3, CHR 0xC4, CHR 0xC5, CHR 0xC6, CHR 0xC7,
      CHR 0xC8, CHR 0xC9, CHR 0xCA, CHR 0xCB, CHR 0xCC, CHR 0xCD, CHR 0xCE, CHR 0xCF,
      CHR 0xD0, CHR 0xD1, CHR 0xD2, CHR 0xD3, CHR 0xD4, CHR 0xD5, CHR 0xD6,
      CHR 0xD8, CHR 0xD9, CHR 0xDA, CHR 0xDB, CHR 0xDC, CHR 0xDD, CHR 0xDE]"

definition lower_chars :: string where
  "lower_chars =
     ''abcdefghijklmnopqrstuvwxyz'' @
     [CHR 0xE0, CHR 0xE1, CHR 0xE2, CHR 0xE3, CHR 0xE4, CHR 0xE5, CHR 0xE6, CHR 0xE7,
      CHR 0xE8, CHR 0xE9, CHR 0xEA, CHR 0xEB, CHR 0xEC, CHR 0xED, CHR 0xEE, CHR 0xEF,
      CHR 0xF0, CHR 0xF1, CHR 0xF2, CHR 0xF3, CHR 0xF4, CHR 0xF5, CHR 0xF6,
      CHR 0xF8, CHR 0xF9, CHR 0xFA, CHR 0xFB, CHR 0xFC, CHR 0xFD, CHR 0xFE]"

definition lower_char :: "char \<Rightarrow> char" where
  "lower_char c = (case map_of (zip upper_chars lower_chars) c of None \<Rightarrow> c | Some d \<Rightarrow> d)"

definition toLowerCase :: "string \<Rightarrow> string" where
  "toLowerCase s = map lower_char s"

fun startsWith :: "string \<Rightarrow> string \<Rightarrow> bool" where
  "startsWith s [] = True"
| "startsWith [] (p # ps) = False"
| "startsWith (c # cs) (p # ps) = (c = p \<and> startsWith cs ps)"

text \<open>\<^verbatim>\<open>s.includes(sub)\<close>: \<open>sub\<close> occurs in \<open>s\<close> as a contiguous substring.\<close>

fun str_includes :: "string \<Rightarrow> string \<Rightarrow> bool" where
  "str_includes [] sub = (sub = [])"
| "str_includes (c # cs) sub = (startsWith (c # cs) sub \<or> str_includes cs sub)"

section \<open>Data access\<close>

text \<open>
  \<^verbatim>\<open>readOne(myDataAll, tagId)\<close> accepts two shapes of the upstream snapshot: an array of
  rows \<^verbatim>\<open>{ tagId|name|tag|id, value|val|v, ts|timestamp }\<close> and an object map from tag
  name to a raw value or to a \<^verbatim>\<open>{ value, ts }\<close> record. An absent field of a row reads
  \<^verbatim>\<open>undefined\<close>; an array element that is not an object is \<open>None\<close>.
\<close>

record row =
  row_tagId :: prim
  row_name :: prim
  row_tag :: prim
  row_id :: prim
  row_value :: prim
  row_val :: prim
  row_v :: prim
  row_ts :: "int option"
  row_timestamp :: "int option"

datatype cell = Raw prim | Rec prim "int option"

datatype source = NoData | Rows "row option list" | Table "string \<rightharpoonup> cell"

record reading =
  rd_value :: prim
  rd_ts :: "int option"

fun readRows :: "row option list \<Rightarrow> string \<Rightarrow> reading" where
  "readRows [] tagId = \<lparr>rd_value = PNull, rd_ts = None\<rparr>"
| "readRows (None # rows) tagId = readRows rows tagId"
| "readRows (Some r # rows) tagId =
     (let key = coalesce (row_tagId r) (coalesce (row_name r) (coalesce (row_tag r) (row_id r)))
      in if strict_eq key (PStr tagId)
         then \<lparr>rd_value = coalesce (row_value r) (coalesce (row_val r) (coalesce (row_v r) PNull)),
               rd_ts = (case row_ts r of None \<Rightarrow> row_timestamp r | Some t \<Rightarrow> Some t)\<rparr>
         else readRows rows tagId)"

fun readOne :: "source \<Rightarrow> string \<Rightarrow> reading" where
  "readOne NoData tagId = \<lparr>rd_value = PNull, rd_ts = None\<rparr>"
| "readOne (Rows rows) tagId = readRows rows tagId"
| "readOne (Table m) tagId =
     (case m tagId of
        None \<Rightarrow> \<lparr>rd_value = PNull, rd_ts = None\<rparr>
      | Some (Rec v t) \<Rightarrow> \<lparr>rd_value = coalesce v PNull, rd_ts = t\<rparr>
      | Some (Raw v) \<Rightarrow> \<lparr>rd_value = v, rd_ts = None\<rparr>)"

section \<open>Engine state and events\<close>

text \<open>
  The module-level variables of \<^verbatim>\<open>index.js\<close> (lines 18 to 30) are the fields of one
  record. \<open>sseClients\<close> is the \<^verbatim>\<open>Set\<close> of open responses in insertion order, a client
  being named by a number. \<open>wire\<close> records, per client, the events written to its
  response so far. \<open>advances\<close> is instrumentation: it counts the executions of the
  assignment \<^verbatim>\<open>lastBeatVal = hbVal\<close> (line 266).
\<close>

record sent =
  s_value :: prim
  s_ts :: int

record update =
  u_tagId :: string
  u_value :: prim
  u_ts :: int

record plc =
  p_ok :: bool
  p_ts :: int
  p_tag :: string
  p_value :: prim
  p_timeoutMs :: int

datatype event =
    Hello int string int
  | Patch "update list"
  | PlcComms plc
  | Heartbeat int

fun is_patch :: "event \<Rightarrow> bool" where
  "is_patch (Patch us) = True"
| "is_patch _ = False"

fun is_comms :: "event \<Rightarrow> bool" where
  "is_comms (PlcComms p) = True"
| "is_comms _ = False"

record engine =
  sseClients :: "nat list"
  lastSent :: "string \<rightharpoonup> sent"
  pollTimer :: bool
  lastBeatTs :: "int option"
  lastBeatVal :: prim
  lastCommsOk :: "bool option"
  wire :: "nat \<Rightarrow> event list"
  advances :: nat

definition initial :: engine where
  "initial = \<lparr>sseClients = [], lastSent = Map.empty, pollTimer = False, lastBeatTs = None,
     lastBeatVal = PUndefined, lastCommsOk = None, wire = (\<lambda>c. []), advances = 0\<rparr>"

text \<open>
  The environment: \<^verbatim>\<open>SSE_POLL_MS\<close> and \<^verbatim>\<open>HEARTBEAT_TIMEOUT_MS\<close>, each \<open>None\<close> when the
  variable is unset or empty and otherwise the number the string converts to.
\<close>

record env =
  env_SSE_POLL_MS :: "int option"
  env_HEARTBEAT_TIMEOUT_MS :: "int option"

definition POLL_MS :: "env \<Rightarrow> int" where
  "POLL_MS e = (case env_SSE_POLL_MS e of None \<Rightarrow> 250 | Some n \<Rightarrow> n)"

definition HEARTBEAT_TIMEOUT_MS :: "env \<Rightarrow> int" where
  "HEARTBEAT_TIMEOUT_MS e =
     (case env_HEARTBEAT_TIMEOUT_MS e of None \<Rightarrow> POLL_MS e * 6 | Some n \<Rightarrow> n)"

datatype error = Thrown

section \<open>Liveness detector\<close>

text \<open>
  Lines 242 to 260 of \<^verbatim>\<open>computePlcCommsState\<close>: whether the value read from the beat
  tag counts as a beat against the previous raw value.
\<close>

definition beatDetected :: "(string \<Rightarrow> jsnum) \<Rightarrow> string \<Rightarrow> prim \<Rightarrow> prim \<Rightarrow> bool" where
  "beatDetected str2num hbTag hbVal lastVal =
     (let tagNameLc = toLowerCase hbTag;
          isHeartbeat = str_includes tagNameLc ''heartbeat'';
          isHandshakeLike = str_includes tagNameLc ''handshake''
      in if isHeartbeat then
           \<not> strict_eq lastVal PUndefined \<and> \<not> strict_eq hbVal lastVal
         else if isHandshakeLike then
           (let num = Number str2num hbVal
            in isFinite num \<and> ge_zero num \<and>
               (strict_eq lastVal PUndefined \<or> \<not> num_strict_eq num (Number str2num lastVal)))
         else
           \<not> strict_eq lastVal PUndefined \<and> \<not> strict_eq hbVal lastVal)"

text \<open>\<^verbatim>\<open>settings.HEARTBEAT || 'TOHMI_CRC_Handshake'\<close> (line 238).\<close>

definition hbTag_of :: "string option \<Rightarrow> string" where
  "hbTag_of heartbeat =
     (case heartbeat of
        None \<Rightarrow> ''TOHMI_CRC_Handshake''
      | Some t \<Rightarrow> if t = [] then ''TOHMI_CRC_Handshake'' else t)"

text \<open>
  \<^verbatim>\<open>computePlcCommsState(getAllData, getAllSettings, { advanceState })\<close>. The two
  callbacks are called first (lines 236, 237); each may throw, which leaves the state
  as it was. \<open>now\<close> is the value of \<^verbatim>\<open>Date.now()\<close> at line 241.
\<close>

definition computePlcCommsState ::
  "(string \<Rightarrow> jsnum) \<Rightarrow> env \<Rightarrow> error + source \<Rightarrow> error + string option \<Rightarrow> bool \<Rightarrow> int
     \<Rightarrow> engine \<Rightarrow> error + engine \<times> plc" where
  "computePlcCommsState str2num e getAllData getAllSettings advanceState now s =
     (case getAllData of
        Inl x \<Rightarrow> Inl x
      | Inr data \<Rightarrow>
     (case getAllSettings of
        Inl x \<Rightarrow> Inl x
      | Inr heartbeat \<Rightarrow>
          (let hbTag = hbTag_of heartbeat;
               hbVal = rd_value (readOne data hbTag);
               beat = beatDetected str2num hbTag hbVal (lastBeatVal s);
               s1 = (if advanceState \<and> beat then s\<lparr>lastBeatTs := Some now\<rparr> else s);
               s2 = (if advanceState
                     then s1\<lparr>lastBeatVal := hbVal, advances := advances s1 + 1\<rparr> else s1);
               commsOk = (case lastBeatTs s2 of
                            None \<Rightarrow> False
                          | Some t \<Rightarrow> now - t \<le> HEARTBEAT_TIMEOUT_MS e)
           in Inr (s2, \<lparr>p_ok = commsOk, p_ts = now, p_tag = hbTag,
                        p_value = coalesce hbVal PNull,
                        p_timeoutMs = HEARTBEAT_TIMEOUT_MS e\<rparr>))))"

section \<open>Server-sent events\<close>

text \<open>
  \<^verbatim>\<open>sseWrite(res, type, data)\<close> writes one event to a response. A write can throw;
  \<open>fails c ev\<close> says that writing \<open>ev\<close> to client \<open>c\<close> throws. A write that throws
  delivers nothing.

  The loop \<^verbatim>\<open>for (const c of sseClients) sseWrite(c, type, data)\<close> of lines 303 and 311
  has no handler of its own: the first write that throws ends the loop, and the
  exception leaves it. The result is whether a write threw, and the wire as the loop
  left it.
\<close>

definition sseWrite :: "nat \<Rightarrow> event \<Rightarrow> (nat \<Rightarrow> event list) \<Rightarrow> (nat \<Rightarrow> event list)" where
  "sseWrite c ev w = w(c := w c @ [ev])"

fun writeAll ::
  "(nat \<Rightarrow> event \<Rightarrow> bool) \<Rightarrow> event \<Rightarrow> nat list \<Rightarrow> (nat \<Rightarrow> event list)
     \<Rightarrow> bool \<times> (nat \<Rightarrow> event list)" where
  "writeAll fails ev [] w = (False, w)"
| "writeAll fails ev (c # cs) w =
     (if fails c ev then (True, w) else writeAll fails ev cs (sseWrite c ev w))"

text \<open>
  The keepalive loop of lines 492 to 494 wraps each write in its own \<^verbatim>\<open>try\<close> with an
  empty \<^verbatim>\<open>catch\<close>: a write that throws is skipped and the loop goes on.
\<close>

fun writeEach ::
  "(nat \<Rightarrow> event \<Rightarrow> bool) \<Rightarrow> event \<Rightarrow> nat list \<Rightarrow> (nat \<Rightarrow> event list)
     \<Rightarrow> (nat \<Rightarrow> event list)" where
  "writeEach fails ev [] w = w"
| "writeEach fails ev (c # cs) w =
     (if fails c ev then writeEach fails ev cs w else writeEach fails ev cs (sseWrite c ev w))"

section \<open>Diff poller\<close>

text \<open>
  One iteration of the loop of lines 288 to 301, on the pair of \<open>lastSent\<close> and the
  \<open>updates\<close> collected so far. \<open>now\<close> is \<^verbatim>\<open>Date.now()\<close>; the callback runs to completion
  without yielding, and one clock value stands for every reading of the clock in it.
\<close>

definition valueChanged :: "sent option \<Rightarrow> reading \<Rightarrow> bool" where
  "valueChanged prev cur =
     (case prev of None \<Rightarrow> True | Some p \<Rightarrow> \<not> strict_eq (s_value p) (rd_value cur))"

definition diffOne ::
  "source \<Rightarrow> int \<Rightarrow> (string \<rightharpoonup> sent) \<times> update list \<Rightarrow> string
     \<Rightarrow> (string \<rightharpoonup> sent) \<times> update list" where
  "diffOne data now acc t =
     (let cur = readOne data t;
          prev = fst acc t
      in if valueChanged prev cur then
           (let ts = (case rd_ts cur of None \<Rightarrow> now | Some c \<Rightarrow> c)
            in ((fst acc)(t \<mapsto> \<lparr>s_value = rd_value cur, s_ts = ts\<rparr>),
                snd acc @ [\<lparr>u_tagId = t, u_value = rd_value cur, u_ts = ts\<rparr>]))
         else
           (case (prev, rd_ts cur) of
              (Some p, Some c) \<Rightarrow>
                if s_ts p < c then ((fst acc)(t \<mapsto> \<lparr>s_value = s_value p, s_ts = c\<rparr>), snd acc)
                else acc
            | _ \<Rightarrow> acc))"

text \<open>
  What one iteration leaves in \<open>lastSent\<close> for its tag, from the entry \<open>prev\<close> it found
  and the reading \<open>cur\<close>: the three branches of lines 294 to 300.
\<close>

definition entryAfter :: "sent option \<Rightarrow> reading \<Rightarrow> int \<Rightarrow> sent option" where
  "entryAfter prev cur now =
     (if valueChanged prev cur then
        Some \<lparr>s_value = rd_value cur, s_ts = (case rd_ts cur of None \<Rightarrow> now | Some c \<Rightarrow> c)\<rparr>
      else
        (case (prev, rd_ts cur) of
           (Some p, Some c) \<Rightarrow> if s_ts p < c then Some \<lparr>s_value = s_value p, s_ts = c\<rparr> else prev
         | _ \<Rightarrow> prev))"

definition diffTags ::
  "string list \<Rightarrow> source \<Rightarrow> int \<Rightarrow> (string \<rightharpoonup> sent) \<Rightarrow> (string \<rightharpoonup> sent) \<times> update list" where
  "diffTags tags data now ls = foldl (diffOne data now) (ls, []) tags"

text \<open>
  The callback of \<^verbatim>\<open>setInterval\<close> in \<^verbatim>\<open>startPolling\<close> (lines 282 to 317), in the two
  parts its comments name. The upstream query \<^verbatim>\<open>getAllData\<close> is called twice in one
  tick, at line 284 and at line 236 inside \<^verbatim>\<open>computePlcCommsState\<close>; \<open>getAllData1\<close>
  and \<open>getAllData2\<close> are the outcomes of the two calls, \<open>Inl\<close> for a call that throws.
  Whatever is thrown inside the \<^verbatim>\<open>try\<close> ends the tick at that point, with the
  assignments and writes made before it kept.

  \<open>diffPatch\<close> is the part "Existing tags diff/patch" (lines 286 to 304); its first
  component tells that a write of the patch threw.
\<close>

definition diffPatch ::
  "string list \<Rightarrow> source \<Rightarrow> (nat \<Rightarrow> event \<Rightarrow> bool) \<Rightarrow> int \<Rightarrow> engine \<Rightarrow> bool \<times> engine" where
  "diffPatch tags data fails now s =
     (let d = diffTags tags data now (lastSent s);
          updates = snd d;
          s1 = s\<lparr>lastSent := fst d\<rparr>
      in if updates \<noteq> [] \<and> sseClients s1 \<noteq> []
         then (let r = writeAll fails (Patch updates) (sseClients s1) (wire s1)
               in (fst r, s1\<lparr>wire := snd r\<rparr>))
         else (False, s1))"

text \<open>\<open>commsEvent\<close> is the part "PLC comms detection & event" (lines 306 to 313).\<close>

definition commsEvent ::
  "(string \<Rightarrow> jsnum) \<Rightarrow> env \<Rightarrow> error + source \<Rightarrow> error + string option
     \<Rightarrow> (nat \<Rightarrow> event \<Rightarrow> bool) \<Rightarrow> int \<Rightarrow> engine \<Rightarrow> engine" where
  "commsEvent str2num e getAllData2 getAllSettings fails now s =
     (case computePlcCommsState str2num e getAllData2 getAllSettings True now s of
        Inl x \<Rightarrow> s
      | Inr r \<Rightarrow>
          (let s3 = fst r; plc = snd r
           in if lastCommsOk s3 = None \<or> lastCommsOk s3 \<noteq> Some (p_ok plc) then
                (let s4 = s3\<lparr>lastCommsOk := Some (p_ok plc)\<rparr>
                 in if sseClients s4 \<noteq> []
                    then s4\<lparr>wire :=
                           snd (writeAll fails (PlcComms plc) (sseClients s4) (wire s4))\<rparr>
                    else s4)
              else s3))"

definition pollTick ::
  "(string \<Rightarrow> jsnum) \<Rightarrow> env \<Rightarrow> string list \<Rightarrow> error + source \<Rightarrow> error + source
     \<Rightarrow> error + string option \<Rightarrow> (nat \<Rightarrow> event \<Rightarrow> bool) \<Rightarrow> int \<Rightarrow> engine \<Rightarrow> engine" where
  "pollTick str2num e tags getAllData1 getAllData2 getAllSettings fails now s =
     (case getAllData1 of
        Inl x \<Rightarrow> s
      | Inr data \<Rightarrow>
          (let r = diffPatch tags data fails now s
           in if fst r then snd r
              else commsEvent str2num e getAllData2 getAllSettings fails now (snd r)))"

text \<open>\<^verbatim>\<open>startPolling\<close>: arms the timer unless it is armed already. Nothing clears it.\<close>

definition startPolling :: "engine \<Rightarrow> engine" where
  "startPolling s = (if pollTimer s then s else s\<lparr>pollTimer := True\<rparr>)"

section \<open>The streaming endpoint\<close>

text \<open>\<^verbatim>\<open>buildSnapshot(myDataAll, tagIds)\<close>: one reading per tag, in the order of the list.\<close>

definition buildSnapshot :: "source \<Rightarrow> string list \<Rightarrow> (string \<times> reading) list" where
  "buildSnapshot myDataAll tagIds = map (\<lambda>t. (t, readOne myDataAll t)) tagIds"

definition initialUpdates :: "source \<Rightarrow> string list \<Rightarrow> int \<Rightarrow> update list" where
  "initialUpdates myDataAll tagIds now =
     map (\<lambda>r. \<lparr>u_tagId = fst r, u_value = rd_value (snd r),
               u_ts = (case rd_ts (snd r) of None \<Rightarrow> now | Some t \<Rightarrow> t)\<rparr>)
       (buildSnapshot myDataAll tagIds)"

text \<open>\<^verbatim>\<open>sseClients.add(res)\<close> and \<^verbatim>\<open>sseClients.delete(res)\<close>.\<close>

definition set_add :: "nat \<Rightarrow> nat list \<Rightarrow> nat list" where
  "set_add c cs = (if c \<in> set cs then cs else cs @ [c])"

definition set_delete :: "nat \<Rightarrow> nat list \<Rightarrow> nat list" where
  "set_delete c cs = removeAll c cs"

text \<open>
  The handler of \<^verbatim>\<open>GET /hmi-data\<close> (lines 405 to 444) for the response \<open>c\<close>.
  \<open>opcuaState\<close> is \<^verbatim>\<open>getOpcuaState() || 'unknown'\<close>. \<open>getAllData1\<close> is the outcome of the
  call at line 419 (a falsy snapshot is \<open>NoData\<close>) and \<open>getAllData2\<close> that of the call
  inside \<^verbatim>\<open>computePlcCommsState\<close>. The \<^verbatim>\<open>hello\<close> write is outside every \<^verbatim>\<open>try\<close>: when
  it throws, the handler is left before the client is tracked. \<open>sendInitial\<close> is the
  \<^verbatim>\<open>try\<close> block of lines 418 to 432 and \<open>sendComms\<close> the inner one of lines 428 to
  431; what is thrown inside is dropped by the empty \<^verbatim>\<open>catch\<close>.
\<close>

definition sendComms ::
  "(string \<Rightarrow> jsnum) \<Rightarrow> env \<Rightarrow> nat \<Rightarrow> error + source \<Rightarrow> error + string option
     \<Rightarrow> (nat \<Rightarrow> event \<Rightarrow> bool) \<Rightarrow> int \<Rightarrow> engine \<Rightarrow> engine" where
  "sendComms str2num e c getAllData2 getAllSettings fails now s =
     (case computePlcCommsState str2num e getAllData2 getAllSettings True now s of
        Inl x \<Rightarrow> s
      | Inr r \<Rightarrow>
          if fails c (PlcComms (snd r)) then fst r
          else (fst r)\<lparr>wire := sseWrite c (PlcComms (snd r)) (wire (fst r))\<rparr>)"

definition sendInitial ::
  "(string \<Rightarrow> jsnum) \<Rightarrow> env \<Rightarrow> string list \<Rightarrow> nat \<Rightarrow> error + source \<Rightarrow> error + source
     \<Rightarrow> error + string option \<Rightarrow> (nat \<Rightarrow> event \<Rightarrow> bool) \<Rightarrow> int \<Rightarrow> engine \<Rightarrow> engine" where
  "sendInitial str2num e tags c getAllData1 getAllData2 getAllSettings fails now s =
     (case getAllData1 of
        Inl x \<Rightarrow> s
      | Inr myDataAll \<Rightarrow>
          (let initial = initialUpdates myDataAll tags now
           in if initial \<noteq> [] \<and> fails c (Patch initial) then s
              else sendComms str2num e c getAllData2 getAllSettings fails now
                     (if initial \<noteq> [] then s\<lparr>wire := sseWrite c (Patch initial) (wire s)\<rparr>
                      else s)))"

definition hmi_data ::
  "(string \<Rightarrow> jsnum) \<Rightarrow> env \<Rightarrow> string list \<Rightarrow> nat \<Rightarrow> string \<Rightarrow> error + source \<Rightarrow> error + source
     \<Rightarrow> error + string option \<Rightarrow> (nat \<Rightarrow> event \<Rightarrow> bool) \<Rightarrow> int \<Rightarrow> engine \<Rightarrow> engine" where
  "hmi_data str2num e tags c opcuaState getAllData1 getAllData2 getAllSettings fails now s =
     (let hello = Hello now opcuaState (POLL_MS e)
      in if fails c hello then s
         else
           (let s1 = sendInitial str2num e tags c getAllData1 getAllData2 getAllSettings fails now
                       (s\<lparr>wire := sseWrite c hello (wire s)\<rparr>)
            in startPolling (s1\<lparr>sseClients := set_add c (sseClients s1)\<rparr>)))"

text \<open>The handler of the request's \<^verbatim>\<open>close\<close> event (lines 441 to 443).\<close>

definition on_close :: "nat \<Rightarrow> engine \<Rightarrow> engine" where
  "on_close c s = s\<lparr>sseClients := set_delete c (sseClients s)\<rparr>"

text \<open>The keepalive timer's callback (lines 490 to 495).\<close>

definition keepalive :: "(nat \<Rightarrow> event \<Rightarrow> bool) \<Rightarrow> int \<Rightarrow> engine \<Rightarrow> engine" where
  "keepalive fails now s =
     (if sseClients s = [] then s
      else s\<lparr>wire := writeEach fails (Heartbeat now) (sseClients s) (wire s)\<rparr>)"

text \<open>
  The operations that run on the engine once it is attached, each with the outcomes of
  the callbacks it calls, and a run of them in order.
\<close>

datatype op =
    Tick "error + source" "error + source" "error + string option" "nat \<Rightarrow> event \<Rightarrow> bool" int
  | Connect nat string "error + source" "error + source" "error + string option"
      "nat \<Rightarrow> event \<Rightarrow> bool" int
  | KeepAlive "nat \<Rightarrow> event \<Rightarrow> bool" int
  | Close nat

fun step :: "(string \<Rightarrow> jsnum) \<Rightarrow> env \<Rightarrow> string list \<Rightarrow> engine \<Rightarrow> op \<Rightarrow> engine" where
  "step str2num e tags s (Tick d1 d2 st fails now) = pollTick str2num e tags d1 d2 st fails now s"
| "step str2num e tags s (Connect c opc d1 d2 st fails now) =
     hmi_data str2num e tags c opc d1 d2 st fails now s"
| "step str2num e tags s (KeepAlive fails now) = keepalive fails now s"
| "step str2num e tags s (Close c) = on_close c s"

definition run :: "(string \<Rightarrow> jsnum) \<Rightarrow> env \<Rightarrow> string list \<Rightarrow> engine \<Rightarrow> op list \<Rightarrow> engine" where
  "run str2num e tags s ops = foldl (step str2num e tags) s ops"

fun is_tick :: "op \<Rightarrow> bool" where
  "is_tick (Tick d1 d2 st fails now) = True"
| "is_tick _ = False"

fun is_connect :: "op \<Rightarrow> bool" where
  "is_connect (Connect c opc d1 d2 st fails now) = True"
| "is_connect _ = False"

section \<open>Template resolver\<close>

text \<open>
  Configuration values are JSON. An object is the list of its entries in the order of
  \<^verbatim>\<open>Object.entries\<close>, with distinct keys; where only property access matters (a
  template, a metadata record) an object is a map from key to value.
\<close>

datatype json =
    JNull
  | JBool bool
  | JNum rat
  | JStr string
  | JArr "json list"
  | JObj "(string \<times> json) list"

type_synonym meta = "string \<rightharpoonup> json"

definition is_digit :: "char \<Rightarrow> bool" where
  "is_digit c = (c \<in> set ''0123456789'')"

text \<open>
  \<^verbatim>\<open>captureNumbers(concrete, templateWithHashes)\<close>. The pattern built at line 67 is
  anchored at both ends; every character of the template is matched literally
  (\<^verbatim>\<open>escReg\<close> escapes the metacharacters) except \<^verbatim>\<open>#\<close>, which becomes the group
  \<^verbatim>\<open>([0-9]+)\<close>: one or more digits, the longest run first and shorter runs on
  backtracking. \<open>tryLengths k s n\<close> tries the group on the first \<open>n\<close>, \<open>n - 1\<close>, ..., \<open>1\<close>
  characters of \<open>s\<close>, the rest of the pattern being \<open>k\<close>.
\<close>

fun tryLengths :: "(string \<Rightarrow> string list option) \<Rightarrow> string \<Rightarrow> nat \<Rightarrow> string list option" where
  "tryLengths k s 0 = None"
| "tryLengths k s (Suc n) =
     (case k (drop (Suc n) s) of
        Some caps \<Rightarrow> Some (take (Suc n) s # caps)
      | None \<Rightarrow> tryLengths k s n)"

fun matchTemplate :: "string \<Rightarrow> string \<Rightarrow> string list option" where
  "matchTemplate [] s = (if s = [] then Some [] else None)"
| "matchTemplate (p # ps) s =
     (if p = CHR ''#'' then
        tryLengths (\<lambda>rest. matchTemplate ps rest) s (length (takeWhile is_digit s))
      else
        (case s of
           [] \<Rightarrow> None
         | c # cs \<Rightarrow> if c = p then matchTemplate ps cs else None))"

definition captureNumbers :: "string \<Rightarrow> string \<Rightarrow> string list option" where
  "captureNumbers concrete templateWithHashes = matchTemplate templateWithHashes concrete"

text \<open>
  \<^verbatim>\<open>applyCaptures(str, caps)\<close>: \<open>replaceHashes\<close> is the \<^verbatim>\<open>replace\<close> of line 77 with its
  counter \<open>i\<close>; the guard of line 75 returns the string as it is when it is empty or when
  there is no capture.
\<close>

fun replaceHashes :: "string \<Rightarrow> string list \<Rightarrow> nat \<Rightarrow> string" where
  "replaceHashes [] caps i = []"
| "replaceHashes (c # cs) caps i =
     (if c = CHR ''#''
      then (if i < length caps then caps ! i else []) @ replaceHashes cs caps (Suc i)
      else c # replaceHashes cs caps i)"

definition applyCaptures :: "string \<Rightarrow> string list \<Rightarrow> string" where
  "applyCaptures str caps = (if str = [] \<or> caps = [] then str else replaceHashes str caps 0)"

text \<open>
  \<^verbatim>\<open>materializeTemplate(tpl, concreteTag)\<close>. \<^verbatim>\<open>escReg\<close> calls \<^verbatim>\<open>replace\<close> on
  \<^verbatim>\<open>tpl.tagId\<close>, which throws a TypeError unless that is a string.
\<close>

definition applyField :: "string \<Rightarrow> string list \<Rightarrow> meta \<Rightarrow> meta" where
  "applyField field caps m =
     (case m field of
        Some (JStr str) \<Rightarrow> m(field \<mapsto> JStr (applyCaptures str caps))
      | _ \<Rightarrow> m)"

definition materializeTemplate :: "meta \<Rightarrow> string \<Rightarrow> error + meta" where
  "materializeTemplate tpl concreteTag =
     (case tpl ''tagId'' of
        Some (JStr pattern) \<Rightarrow>
          (let caps = (case captureNumbers concreteTag pattern of None \<Rightarrow> [] | Some cs \<Rightarrow> cs);
               m0 = tpl(''tagId'' \<mapsto> JStr concreteTag);
               m1 = applyField ''label'' caps m0;
               m2 = applyField ''description'' caps m1
           in Inr m2)
      | _ \<Rightarrow> Inl Thrown)"

text \<open>
  The substitution as the specification words it, for comparison: the placeholders of
  \<open>label\<close> and then those of \<open>description\<close> consume one sequence of captures, and a
  placeholder with no capture left becomes the empty string.
\<close>

fun spec_replace :: "string \<Rightarrow> string list \<Rightarrow> string \<times> string list" where
  "spec_replace [] caps = ([], caps)"
| "spec_replace (c # cs) caps =
     (if c = CHR ''#''
      then (case caps of
              [] \<Rightarrow> spec_replace cs []
            | k # ks \<Rightarrow> (case spec_replace cs ks of (r, rest) \<Rightarrow> (k @ r, rest)))
      else (case spec_replace cs caps of (r, rest) \<Rightarrow> (c # r, rest)))"

definition spec_Materialize :: "meta \<Rightarrow> string \<Rightarrow> string list \<Rightarrow> meta" where
  "spec_Materialize tpl concreteTag capturedDigits =
     (let m0 = tpl(''tagId'' \<mapsto> JStr concreteTag);
          l = (case m0 ''label'' of
                 Some (JStr str) \<Rightarrow> Some (spec_replace str capturedDigits)
               | _ \<Rightarrow> None);
          m1 = (case l of None \<Rightarrow> m0 | Some (r, rest) \<Rightarrow> m0(''label'' \<mapsto> JStr r));
          caps1 = (case l of None \<Rightarrow> capturedDigits | Some (r, rest) \<Rightarrow> rest)
      in case m1 ''description'' of
           Some (JStr str) \<Rightarrow> m1(''description'' \<mapsto> JStr (fst (spec_replace str caps1)))
         | _ \<Rightarrow> m1)"

section \<open>Tag registry builder\<close>

text \<open>\<^verbatim>\<open>TAG_REGEX\<close> (line 97): the recognised prefixes of a tag name.\<close>

definition feedpointPrefix :: "string \<Rightarrow> bool" where
  "feedpointPrefix s =
     (startsWith s ''Feedpoint'' \<and>
      takeWhile is_digit (drop 9 s) \<noteq> [] \<and>
      startsWith (dropWhile is_digit (drop 9 s)) ''_'')"

definition TAG_REGEX :: "string \<Rightarrow> bool" where
  "TAG_REGEX s =
     (startsWith s ''TOHMI_'' \<or> startsWith s ''FRMHMI_'' \<or> startsWith s ''ALARM_'' \<or>
      startsWith s ''WARNING_'' \<or> feedpointPrefix s \<or>
      (startsWith s ''Recipe_'' \<and> feedpointPrefix (drop 7 s)))"

text \<open>
  \<^verbatim>\<open>String.prototype.trim\<close>: the white space below code unit 256 is tab, LF, VT, FF,
  CR, space and the no-break space 0xA0.
\<close>

definition is_space :: "char \<Rightarrow> bool" where
  "is_space c =
     (c \<in> set [CHR 0x09, CHR 0x0A, CHR 0x0B, CHR 0x0C, CHR 0x0D, CHR 0x20, CHR 0xA0])"

definition trim :: "string \<Rightarrow> string" where
  "trim s = rev (dropWhile is_space (rev (dropWhile is_space s)))"

text \<open>\<^verbatim>\<open>!val\<close> on a JSON value.\<close>

fun falsy :: "json \<Rightarrow> bool" where
  "falsy JNull = True"
| "falsy (JBool b) = (\<not> b)"
| "falsy (JNum n) = (n = 0)"
| "falsy (JStr s) = (s = [])"
| "falsy _ = False"

text \<open>
  \<^verbatim>\<open>collectConcreteTags\<close>. A collected entry is a tag name with the override of its
  first reference (\<open>None\<close> for \<^verbatim>\<open>null\<close>). The accumulator is the pair of \<^verbatim>\<open>found\<close> and
  \<^verbatim>\<open>seen\<close>.
\<close>

type_synonym entry = "string \<times> json option"

definition add :: "string \<Rightarrow> json option \<Rightarrow> entry list \<times> string list \<Rightarrow> entry list \<times> string list" where
  "add tagId override acc =
     (if tagId = [] then acc
      else
        (let ident = trim tagId
         in if ident = [] \<or> \<not> TAG_REGEX ident \<or> ident \<in> set (snd acc) then acc
            else (fst acc @ [(ident, override)], snd acc @ [ident])))"

text \<open>\<^verbatim>\<open>val.override || null\<close>.\<close>

definition overrideOf :: "(string \<times> json) list \<Rightarrow> json option" where
  "overrideOf es =
     (case map_of es ''override'' of
        None \<Rightarrow> None
      | Some v \<Rightarrow> if falsy v then None else Some v)"

definition skippedKey :: "string \<Rightarrow> bool" where
  "skippedKey k =
     (k = ''override'' \<or> k = ''component'' \<or> k = ''key'' \<or> k = ''title'' \<or> k = ''id'')"

function (sequential) scan :: "json \<Rightarrow> entry list \<times> string list \<Rightarrow> entry list \<times> string list"
  and scanAll :: "json list \<Rightarrow> entry list \<times> string list \<Rightarrow> entry list \<times> string list"
  and scanEntries :: "(string \<times> json) list \<Rightarrow> entry list \<times> string list \<Rightarrow> entry list \<times> string list"
where
  "scan JNull acc = acc"
| "scan (JBool b) acc = acc"
| "scan (JNum n) acc = acc"
| "scan (JStr s) acc = (if s = [] then acc else if startsWith s ''key_'' then acc else add s None acc)"
| "scan (JArr vs) acc = scanAll vs acc"
| "scan (JObj es) acc =
     scanEntries es
       (case map_of es ''tagId'' of
          Some (JStr t) \<Rightarrow> add t (overrideOf es) acc
        | _ \<Rightarrow> acc)"
| "scanAll [] acc = acc"
| "scanAll (v # vs) acc = scanAll vs (scan v acc)"
| "scanEntries [] acc = acc"
| "scanEntries (kv # es) acc =
     scanEntries es (if skippedKey (fst kv) then acc else scan (snd kv) acc)"
  by pat_completeness auto
termination
  by (relation "measure (\<lambda>x. case x of
         Inl (v, acc) \<Rightarrow> size v
       | Inr (Inl (vs, acc)) \<Rightarrow> size_list size vs
       | Inr (Inr (es, acc)) \<Rightarrow> size_list (size_prod (\<lambda>k. 0) size) es)") auto

text \<open>
  Property access \<^verbatim>\<open>layout.pages\<close>, \<^verbatim>\<open>p.sections\<close>, \<^verbatim>\<open>s.items\<close>, \<^verbatim>\<open>s.widgets\<close> on a JSON value, kept when
  the property is an array: it throws a TypeError on \<^verbatim>\<open>null\<close> and reads \<^verbatim>\<open>undefined\<close>
  on every value but an object that has the key.
\<close>

definition arrayProp :: "json \<Rightarrow> string \<Rightarrow> error + json list option" where
  "arrayProp v k =
     (case v of
        JNull \<Rightarrow> Inl Thrown
      | JObj es \<Rightarrow> (case map_of es k of Some (JArr xs) \<Rightarrow> Inr (Some xs) | _ \<Rightarrow> Inr None)
      | _ \<Rightarrow> Inr None)"

definition itemsOf :: "json \<Rightarrow> error + json list" where
  "itemsOf sec =
     (case arrayProp sec ''items'' of
        Inl x \<Rightarrow> Inl x
      | Inr (Some xs) \<Rightarrow> Inr xs
      | Inr None \<Rightarrow>
          (case arrayProp sec ''widgets'' of
             Inl x \<Rightarrow> Inl x
           | Inr (Some xs) \<Rightarrow> Inr xs
           | Inr None \<Rightarrow> Inr []))"

fun scanSections :: "json list \<Rightarrow> entry list \<times> string list \<Rightarrow> error + entry list \<times> string list" where
  "scanSections [] acc = Inr acc"
| "scanSections (sec # secs) acc =
     (case itemsOf sec of
        Inl x \<Rightarrow> Inl x
      | Inr items \<Rightarrow> scanSections secs (scanAll items acc))"

fun scanPages :: "json list \<Rightarrow> entry list \<times> string list \<Rightarrow> error + entry list \<times> string list" where
  "scanPages [] acc = Inr acc"
| "scanPages (p # ps) acc =
     (case arrayProp p ''sections'' of
        Inl x \<Rightarrow> Inl x
      | Inr secs \<Rightarrow>
          (case scanSections (case secs of None \<Rightarrow> [] | Some xs \<Rightarrow> xs) acc of
             Inl x \<Rightarrow> Inl x
           | Inr acc' \<Rightarrow> scanPages ps acc'))"

definition collectConcreteTags :: "json \<Rightarrow> error + entry list" where
  "collectConcreteTags layout =
     (case arrayProp layout ''pages'' of
        Inl x \<Rightarrow> Inl x
      | Inr pages \<Rightarrow>
          (case scanPages (case pages of None \<Rightarrow> [] | Some ps \<Rightarrow> ps) ([], []) of
             Inl x \<Rightarrow> Inl x
           | Inr acc \<Rightarrow> Inr (fst acc)))"

text \<open>
  The spread \<^verbatim>\<open>{ ...concreteMeta, ...override }\<close>: the own enumerable properties of the
  override, which for an array and for a string are its elements under their indices in
  decimal.
\<close>

function decimal :: "nat \<Rightarrow> string" where
  "decimal n =
     (if n < 10 then [''0123456789'' ! n]
      else decimal (n div 10) @ [''0123456789'' ! (n mod 10)])"
  by pat_completeness auto
termination
  by (relation "measure id") auto

definition indexed :: "json list \<Rightarrow> (string \<times> json) list" where
  "indexed xs = map (\<lambda>i. (decimal i, xs ! i)) [0..<length xs]"

fun properties :: "json \<Rightarrow> (string \<times> json) list" where
  "properties (JObj es) = es"
| "properties (JArr xs) = indexed xs"
| "properties (JStr s) = indexed (map (\<lambda>c. JStr [c]) s)"
| "properties _ = []"

definition merge :: "meta \<Rightarrow> json option \<Rightarrow> meta" where
  "merge concreteMeta override =
     (case override of
        None \<Rightarrow> concreteMeta
      | Some ov \<Rightarrow> concreteMeta ++ map_of (properties ov))"

text \<open>
  \<^verbatim>\<open>buildRegistry(layout, widgetsMap)\<close>. \<open>widgetsMap\<close> is the \<^verbatim>\<open>Map\<close> of templates in
  insertion order. \<open>chooseTemplate\<close> is the loop of lines 160 to 162 and \<open>fallback\<close> the
  record of line 163.
\<close>

record registry =
  tags :: "string list"
  metaByTag :: "string \<rightharpoonup> meta"

fun chooseTemplate :: "string \<Rightarrow> (string \<times> meta) list \<Rightarrow> meta option" where
  "chooseTemplate tagId [] = None"
| "chooseTemplate tagId (kv # rest) =
     (case captureNumbers tagId (fst kv) of
        Some caps \<Rightarrow> Some (snd kv)
      | None \<Rightarrow> chooseTemplate tagId rest)"

definition fallback :: "string \<Rightarrow> meta" where
  "fallback tagId =
     [''tagId'' \<mapsto> JStr tagId, ''label'' \<mapsto> JStr tagId, ''widget'' \<mapsto> JStr ''raw'',
      ''valueType'' \<mapsto> JStr ''string'']"

fun registerAll :: "(string \<times> meta) list \<Rightarrow> entry list \<Rightarrow> registry \<Rightarrow> error + registry" where
  "registerAll widgetsMap [] reg = Inr reg"
| "registerAll widgetsMap (en # entries) reg =
     (let tagId = fst en;
          base = (case chooseTemplate tagId widgetsMap of None \<Rightarrow> fallback tagId | Some tpl \<Rightarrow> tpl)
      in case materializeTemplate base tagId of
           Inl x \<Rightarrow> Inl x
         | Inr concreteMeta \<Rightarrow>
             registerAll widgetsMap entries
               (if metaByTag reg tagId = None
                then reg\<lparr>tags := tags reg @ [tagId],
                         metaByTag := (metaByTag reg)(tagId \<mapsto> merge concreteMeta (snd en))\<rparr>
                else reg))"

definition buildRegistry :: "json \<Rightarrow> (string \<times> meta) list \<Rightarrow> error + registry" where
  "buildRegistry layout widgetsMap =
     (case collectConcreteTags layout of
        Inl x \<Rightarrow> Inl x
      | Inr entries \<Rightarrow> registerAll widgetsMap entries \<lparr>tags = [], metaByTag = Map.empty\<rparr>)"

section \<open>Runs of evaluations\<close>

text \<open>
  A run of state-advancing calls of \<^verbatim>\<open>computePlcCommsState\<close>, one per snapshot and clock
  value, the state that each call leaves being the state of the next: the list holds,
  for each call, the state it leaves and the record it returns.
\<close>

fun evaluations ::
  "(string \<Rightarrow> jsnum) \<Rightarrow> env \<Rightarrow> string option \<Rightarrow> engine \<Rightarrow> (source \<times> int) list
     \<Rightarrow> (engine \<times> plc) list" where
  "evaluations str2num e heartbeat s [] = []"
| "evaluations str2num e heartbeat s (x # xs) =
     (case computePlcCommsState str2num e (Inr (fst x)) (Inr heartbeat) True (snd x) s of
        Inl err \<Rightarrow> []
      | Inr r \<Rightarrow> r # evaluations str2num e heartbeat (fst r) xs)"

section \<open>Properties of the liveness detector\<close>

lemma strict_eq_undefined [simp]: "strict_eq v PUndefined = (v = PUndefined)"
  by (cases v) simp_all

text \<open>The outcome of an evaluation whose two callbacks return.\<close>

lemma computePlcCommsState_Inr:
  "computePlcCommsState S e (Inr data) (Inr hb) adv now s =
     Inr (if adv
          then s\<lparr>lastBeatTs :=
                   (if beatDetected S (hbTag_of hb) (rd_value (readOne data (hbTag_of hb)))
                         (lastBeatVal s)
                    then Some now else lastBeatTs s),
                 lastBeatVal := rd_value (readOne data (hbTag_of hb)),
                 advances := advances s + 1\<rparr>
          else s,
          \<lparr>p_ok = (case (if adv \<and> beatDetected S (hbTag_of hb)
                                    (rd_value (readOne data (hbTag_of hb))) (lastBeatVal s)
                          then Some now else lastBeatTs s) of
                     None \<Rightarrow> False
                   | Some t \<Rightarrow> now - t \<le> HEARTBEAT_TIMEOUT_MS e),
           p_ts = now, p_tag = hbTag_of hb,
           p_value = coalesce (rd_value (readOne data (hbTag_of hb))) PNull,
           p_timeoutMs = HEARTBEAT_TIMEOUT_MS e\<rparr>)"
  by (simp add: computePlcCommsState_def Let_def)

lemma computePlcCommsState_Inl [simp]:
  "computePlcCommsState S e (Inl x) st adv now s = Inl x"
  "computePlcCommsState S e (Inr data) (Inl y) adv now s = Inl y"
  by (simp_all add: computePlcCommsState_def)

lemma computePlcCommsState_ok:
  assumes "computePlcCommsState S e d st adv now s = Inr (s', r)"
  shows "p_ok r = (\<exists>t. lastBeatTs s' = Some t \<and> now - t \<le> HEARTBEAT_TIMEOUT_MS e)"
proof -
  from assms obtain data hb where d: "d = Inr data" and st: "st = Inr hb"
    by (auto simp: computePlcCommsState_def split: sum.splits)
  from assms show ?thesis
    unfolding d st computePlcCommsState_Inr by (auto split: option.splits if_splits)
qed

text \<open>The classification of the tag names used in the examples below.\<close>

lemma classify_TOHMI_CRC_Handshake:
  "str_includes (toLowerCase ''TOHMI_CRC_Handshake'') ''handshake''"
  "\<not> str_includes (toLowerCase ''TOHMI_CRC_Handshake'') ''heartbeat''"
  by code_simp+

lemma classify_PLC_Heartbeat:
  "str_includes (toLowerCase ''PLC_Heartbeat'') ''heartbeat''"
  by code_simp

lemma classify_PLC_Alive:
  "\<not> str_includes (toLowerCase ''PLC_Alive'') ''handshake''"
  "\<not> str_includes (toLowerCase ''PLC_Alive'') ''heartbeat''"
  by code_simp+

lemma heartbeat_beatDetected:
  "str_includes (toLowerCase tag) ''heartbeat'' \<Longrightarrow>
   beatDetected S tag v lv = (lv \<noteq> PUndefined \<and> \<not> strict_eq v lv)"
  by (simp add: beatDetected_def Let_def)

text \<open>
  Claim C5. At every evaluation that returns, \<open>ok\<close> is true exactly when a beat timestamp
  is recorded and \<open>now - lastBeatTs\<close> is at most the timeout window; the window is six
  times the poll interval unless \<^verbatim>\<open>HEARTBEAT_TIMEOUT_MS\<close> is set; and from a state whose
  last beat was at \<open>t0\<close>, an evaluation that detects no further beat returns \<open>ok = true\<close>
  at elapsed time window - 1 and \<open>ok = false\<close> at elapsed time window + 1.
\<close>

theorem liveness_predicate_and_boundary:
  "(computePlcCommsState S e d st adv now s = Inr (s', r) \<longrightarrow>
      p_ok r = (\<exists>t. lastBeatTs s' = Some t \<and> now - t \<le> HEARTBEAT_TIMEOUT_MS e)) \<and>
   (env_HEARTBEAT_TIMEOUT_MS e = None \<longrightarrow> HEARTBEAT_TIMEOUT_MS e = 6 * POLL_MS e) \<and>
   (lastBeatTs s = Some t0 \<and>
    \<not> (adv \<and> beatDetected S (hbTag_of hb) (rd_value (readOne data (hbTag_of hb))) (lastBeatVal s)) \<longrightarrow>
      (\<exists>s1 r1. computePlcCommsState S e (Inr data) (Inr hb) adv (t0 + HEARTBEAT_TIMEOUT_MS e - 1) s
                  = Inr (s1, r1) \<and> p_ok r1) \<and>
      (\<exists>s2 r2. computePlcCommsState S e (Inr data) (Inr hb) adv (t0 + HEARTBEAT_TIMEOUT_MS e + 1) s
                  = Inr (s2, r2) \<and> \<not> p_ok r2))"
proof (intro conjI impI)
  assume "computePlcCommsState S e d st adv now s = Inr (s', r)"
  then show "p_ok r = (\<exists>t. lastBeatTs s' = Some t \<and> now - t \<le> HEARTBEAT_TIMEOUT_MS e)"
    by (rule computePlcCommsState_ok)
next
  assume "env_HEARTBEAT_TIMEOUT_MS e = None"
  then show "HEARTBEAT_TIMEOUT_MS e = 6 * POLL_MS e"
    by (simp add: HEARTBEAT_TIMEOUT_MS_def)
next
  assume a: "lastBeatTs s = Some t0 \<and>
    \<not> (adv \<and> beatDetected S (hbTag_of hb) (rd_value (readOne data (hbTag_of hb))) (lastBeatVal s))"
  then show "\<exists>s1 r1. computePlcCommsState S e (Inr data) (Inr hb) adv
                 (t0 + HEARTBEAT_TIMEOUT_MS e - 1) s = Inr (s1, r1) \<and> p_ok r1"
    by (auto simp: computePlcCommsState_Inr)
  from a show "\<exists>s2 r2. computePlcCommsState S e (Inr data) (Inr hb) adv
                 (t0 + HEARTBEAT_TIMEOUT_MS e + 1) s = Inr (s2, r2) \<and> \<not> p_ok r2"
    by (auto simp: computePlcCommsState_Inr)
qed

theorem liveness_predicate_and_boundary_witness:
  "computePlcCommsState (\<lambda>x. NaN) \<lparr>env_SSE_POLL_MS = None, env_HEARTBEAT_TIMEOUT_MS = None\<rparr>
       (Inr (Table [''TOHMI_CRC_Handshake'' \<mapsto> Raw (PNum (Fin 7))])) (Inr None) True 2500
       (initial\<lparr>lastBeatTs := Some 1000, lastBeatVal := PNum (Fin 7)\<rparr>)
     = Inr (initial\<lparr>lastBeatTs := Some 1000, lastBeatVal := PNum (Fin 7), advances := 1\<rparr>,
            \<lparr>p_ok = True, p_ts = 2500, p_tag = ''TOHMI_CRC_Handshake'', p_value = PNum (Fin 7),
             p_timeoutMs = 1500\<rparr>) \<and>
   HEARTBEAT_TIMEOUT_MS \<lparr>env_SSE_POLL_MS = None, env_HEARTBEAT_TIMEOUT_MS = None\<rparr> = 1500 \<and>
   (\<exists>s1 r1. computePlcCommsState (\<lambda>x. NaN) \<lparr>env_SSE_POLL_MS = None, env_HEARTBEAT_TIMEOUT_MS = None\<rparr>
       (Inr (Table [''TOHMI_CRC_Handshake'' \<mapsto> Raw (PNum (Fin 7))])) (Inr None) True 2499
       (initial\<lparr>lastBeatTs := Some 1000, lastBeatVal := PNum (Fin 7)\<rparr>) = Inr (s1, r1) \<and> p_ok r1) \<and>
   (\<exists>s2 r2. computePlcCommsState (\<lambda>x. NaN) \<lparr>env_SSE_POLL_MS = None, env_HEARTBEAT_TIMEOUT_MS = None\<rparr>
       (Inr (Table [''TOHMI_CRC_Handshake'' \<mapsto> Raw (PNum (Fin 7))])) (Inr None) True 2501
       (initial\<lparr>lastBeatTs := Some 1000, lastBeatVal := PNum (Fin 7)\<rparr>) = Inr (s2, r2) \<and> \<not> p_ok r2)"
  using liveness_predicate_and_boundary
    [of "\<lambda>x. NaN" "\<lparr>env_SSE_POLL_MS = None, env_HEARTBEAT_TIMEOUT_MS = None\<rparr>"
        "Inr (Table [''TOHMI_CRC_Handshake'' \<mapsto> Raw (PNum (Fin 7))])" "Inr None" True 2500
        "initial\<lparr>lastBeatTs := Some 1000, lastBeatVal := PNum (Fin 7)\<rparr>"
        "initial\<lparr>lastBeatTs := Some 1000, lastBeatVal := PNum (Fin 7), advances := 1\<rparr>"
        "\<lparr>p_ok = True, p_ts = 2500, p_tag = ''TOHMI_CRC_Handshake'', p_value = PNum (Fin 7),
          p_timeoutMs = 1500\<rparr>"
        1000 None "Table [''TOHMI_CRC_Handshake'' \<mapsto> Raw (PNum (Fin 7))]"]
  by (simp add: HEARTBEAT_TIMEOUT_MS_def POLL_MS_def hbTag_of_def beatDetected_def
       classify_TOHMI_CRC_Handshake initial_def computePlcCommsState_Inr coalesce_def
       nullish_def)

text \<open>
  Claim C6. For a beat tag whose name contains \<^verbatim>\<open>heartbeat\<close>, five consecutive
  state-advancing calls of \<^verbatim>\<open>computePlcCommsState\<close> from a state with no previous raw
  value, reading the values 0, 0, 1, 1, 0, detect a beat on the third and on the fifth
  call and on no other: the first, second and fourth call leave \<open>lastBeatTs\<close> as they
  found it, the third and the fifth set it to their clock value, and the \<open>ok\<close> each call
  returns is the liveness predicate on that timestamp. Every call records the value it
  read as the raw value.
\<close>

theorem heartbeat_toggle_sequence:
  assumes hb: "str_includes (toLowerCase (hbTag_of heartbeat)) ''heartbeat''"
    and init: "lastBeatVal s = PUndefined"
    and vals: "rd_value (readOne d1 (hbTag_of heartbeat)) = PNum (Fin 0)"
      "rd_value (readOne d2 (hbTag_of heartbeat)) = PNum (Fin 0)"
      "rd_value (readOne d3 (hbTag_of heartbeat)) = PNum (Fin 1)"
      "rd_value (readOne d4 (hbTag_of heartbeat)) = PNum (Fin 1)"
      "rd_value (readOne d5 (hbTag_of heartbeat)) = PNum (Fin 0)"
  shows "map (\<lambda>r. lastBeatTs (fst r))
           (evaluations S e heartbeat s [(d1, n1), (d2, n2), (d3, n3), (d4, n4), (d5, n5)]) =
           [lastBeatTs s, lastBeatTs s, Some n3, Some n3, Some n5] \<and>
         map (\<lambda>r. lastBeatVal (fst r))
           (evaluations S e heartbeat s [(d1, n1), (d2, n2), (d3, n3), (d4, n4), (d5, n5)]) =
           [PNum (Fin 0), PNum (Fin 0), PNum (Fin 1), PNum (Fin 1), PNum (Fin 0)] \<and>
         map (\<lambda>r. p_ok (snd r))
           (evaluations S e heartbeat s [(d1, n1), (d2, n2), (d3, n3), (d4, n4), (d5, n5)]) =
           [case lastBeatTs s of None \<Rightarrow> False | Some t \<Rightarrow> n1 - t \<le> HEARTBEAT_TIMEOUT_MS e,
            case lastBeatTs s of None \<Rightarrow> False | Some t \<Rightarrow> n2 - t \<le> HEARTBEAT_TIMEOUT_MS e,
            0 \<le> HEARTBEAT_TIMEOUT_MS e,
            n4 - n3 \<le> HEARTBEAT_TIMEOUT_MS e,
            0 \<le> HEARTBEAT_TIMEOUT_MS e]"
  by (simp add: computePlcCommsState_Inr heartbeat_beatDetected [OF hb] vals init)

theorem heartbeat_toggle_sequence_witness:
  "map (\<lambda>r. lastBeatTs (fst r))
     (evaluations (\<lambda>x. NaN) \<lparr>env_SSE_POLL_MS = None, env_HEARTBEAT_TIMEOUT_MS = None\<rparr>
        (Some ''PLC_Heartbeat'') initial
        [(Table [''PLC_Heartbeat'' \<mapsto> Raw (PNum (Fin 0))], 1000),
         (Table [''PLC_Heartbeat'' \<mapsto> Raw (PNum (Fin 0))], 1250),
         (Table [''PLC_Heartbeat'' \<mapsto> Raw (PNum (Fin 1))], 1500),
         (Table [''PLC_Heartbeat'' \<mapsto> Raw (PNum (Fin 1))], 1750),
         (Table [''PLC_Heartbeat'' \<mapsto> Raw (PNum (Fin 0))], 2000)])
     = [None, None, Some 1500, Some 1500, Some 2000] \<and>
   map (\<lambda>r. p_ok (snd r))
     (evaluations (\<lambda>x. NaN) \<lparr>env_SSE_POLL_MS = None, env_HEARTBEAT_TIMEOUT_MS = None\<rparr>
        (Some ''PLC_Heartbeat'') initial
        [(Table [''PLC_Heartbeat'' \<mapsto> Raw (PNum (Fin 0))], 1000),
         (Table [''PLC_Heartbeat'' \<mapsto> Raw (PNum (Fin 0))], 1250),
         (Table [''PLC_Heartbeat'' \<mapsto> Raw (PNum (Fin 1))], 1500),
         (Table [''PLC_Heartbeat'' \<mapsto> Raw (PNum (Fin 1))], 1750),
         (Table [''PLC_Heartbeat'' \<mapsto> Raw (PNum (Fin 0))], 2000)])
     = [False, False, True, True, True]"
  using heartbeat_toggle_sequence
    [of "Some ''PLC_Heartbeat''" initial
        "Table [''PLC_Heartbeat'' \<mapsto> Raw (PNum (Fin 0))]"
        "Table [''PLC_Heartbeat'' \<mapsto> Raw (PNum (Fin 0))]"
        "Table [''PLC_Heartbeat'' \<mapsto> Raw (PNum (Fin 1))]"
        "Table [''PLC_Heartbeat'' \<mapsto> Raw (PNum (Fin 1))]"
        "Table [''PLC_Heartbeat'' \<mapsto> Raw (PNum (Fin 0))]"
        "\<lambda>x. NaN" "\<lparr>env_SSE_POLL_MS = None, env_HEARTBEAT_TIMEOUT_MS = None\<rparr>"
        1000 1250 1500 1750 2000]
  by (simp add: hbTag_of_def classify_PLC_Heartbeat initial_def HEARTBEAT_TIMEOUT_MS_def
        POLL_MS_def)

text \<open>
  Claim C10, as amended. On an evaluation with no previous raw value, a beat tag whose
  name contains \<^verbatim>\<open>handshake\<close> and not \<^verbatim>\<open>heartbeat\<close> detects a beat whenever its value is
  a finite number at least 0, while a tag whose name contains \<^verbatim>\<open>heartbeat\<close>, or neither
  word, detects none, whatever its value. A handshake value whose conversion
  \<^verbatim>\<open>Number(value)\<close> is \<^verbatim>\<open>NaN\<close>, infinite or negative never counts as a beat, whatever
  the previous raw value.
\<close>

theorem first_observation_asymmetry:
  "(str_includes (toLowerCase tag) ''handshake'' \<and> \<not> str_includes (toLowerCase tag) ''heartbeat'' \<longrightarrow>
      (0 \<le> q \<longrightarrow> beatDetected S tag (PNum (Fin q)) PUndefined) \<and>
      (\<not> (isFinite (Number S v) \<and> ge_zero (Number S v)) \<longrightarrow> \<not> beatDetected S tag v lv)) \<and>
   (str_includes (toLowerCase tag) ''heartbeat'' \<or> \<not> str_includes (toLowerCase tag) ''handshake'' \<longrightarrow>
      \<not> beatDetected S tag w PUndefined)"
  by (auto simp: beatDetected_def Let_def)

theorem first_observation_asymmetry_witness:
  "beatDetected (\<lambda>x. NaN) ''TOHMI_CRC_Handshake'' (PNum (Fin 1)) PUndefined \<and>
   \<not> beatDetected (\<lambda>x. NaN) ''TOHMI_CRC_Handshake'' (PNum (Fin (- 1))) (PNum (Fin 4)) \<and>
   \<not> beatDetected (\<lambda>x. NaN) ''TOHMI_CRC_Handshake'' (PStr ''stopped'') (PNum (Fin 4)) \<and>
   \<not> beatDetected (\<lambda>x. NaN) ''PLC_Heartbeat'' (PNum (Fin 1)) PUndefined \<and>
   \<not> beatDetected (\<lambda>x. NaN) ''PLC_Alive'' (PNum (Fin 1)) PUndefined"
  using
    first_observation_asymmetry
      [of "''TOHMI_CRC_Handshake''" 1 "\<lambda>x. NaN" "PNum (Fin (- 1))" "PNum (Fin 4)" PNull]
    first_observation_asymmetry
      [of "''TOHMI_CRC_Handshake''" 1 "\<lambda>x. NaN" "PStr ''stopped''" "PNum (Fin 4)" PNull]
    first_observation_asymmetry [of "''PLC_Heartbeat''" 1 "\<lambda>x. NaN" PNull PNull "PNum (Fin 1)"]
    first_observation_asymmetry [of "''PLC_Alive''" 1 "\<lambda>x. NaN" PNull PNull "PNum (Fin 1)"]
  by (simp add: classify_TOHMI_CRC_Handshake classify_PLC_Heartbeat classify_PLC_Alive)

text \<open>
  Claim C10 as stated fails where it says that a non-numeric handshake value never
  counts as a beat. A snapshot without the tag reads \<^verbatim>\<open>null\<close>, which is not a number;
  \<^verbatim>\<open>Number(null)\<close> is 0, and the first evaluation detects a beat and records its
  clock value in \<open>lastBeatTs\<close>. The boolean \<^verbatim>\<open>true\<close> converts to 1 and counts as a beat
  after the raw value 5.
\<close>

theorem non_numeric_handshake_counterexample:
  "str_includes (toLowerCase ''TOHMI_CRC_Handshake'') ''handshake'' \<and>
   \<not> str_includes (toLowerCase ''TOHMI_CRC_Handshake'') ''heartbeat'' \<and>
   rd_value (readOne (Table Map.empty) ''TOHMI_CRC_Handshake'') = PNull \<and>
   (\<forall>n. PNull \<noteq> PNum n) \<and>
   (\<forall>S. beatDetected S ''TOHMI_CRC_Handshake'' PNull PUndefined) \<and>
   (\<forall>n. PBool True \<noteq> PNum n) \<and>
   (\<forall>S. beatDetected S ''TOHMI_CRC_Handshake'' (PBool True) (PNum (Fin 5))) \<and>
   (\<forall>S e. map (\<lambda>r. lastBeatTs (fst r)) (evaluations S e None initial [(Table Map.empty, 1000)])
            = [Some 1000])"
  by (simp add: classify_TOHMI_CRC_Handshake beatDetected_def initial_def
       computePlcCommsState_Inr hbTag_of_def)

section \<open>Properties of the diff poller\<close>

lemma strict_eq_refl: "strict_eq v v = (v \<noteq> PNum NaN)"
proof (cases v)
  case (PNum n) then show ?thesis by (cases n) simp_all
qed simp_all

lemma strict_eq_not_NaN: "strict_eq a b \<Longrightarrow> b \<noteq> PNum NaN"
proof (cases a)
  case (PNum n)
  assume "strict_eq a b"
  with PNum show ?thesis by (cases b; cases n) auto
qed (cases b; simp)+

lemma diffOne_eq:
  "diffOne data now acc t =
     ((fst acc)(t := entryAfter (fst acc t) (readOne data t) now),
      snd acc @ (if valueChanged (fst acc t) (readOne data t)
                 then [\<lparr>u_tagId = t, u_value = rd_value (readOne data t),
                        u_ts = (case rd_ts (readOne data t) of None \<Rightarrow> now | Some c \<Rightarrow> c)\<rparr>]
                 else []))"
  by (cases acc) (auto simp: diffOne_def entryAfter_def Let_def split: option.splits)

lemma valueChanged_entryAfter:
  "valueChanged (entryAfter prev cur now) cur = (rd_value cur = PNum NaN)"
  by (auto simp: entryAfter_def valueChanged_def strict_eq_refl split: option.splits dest: strict_eq_not_NaN)

lemma entryAfter_idem:
  "entryAfter (entryAfter prev cur now) cur now = entryAfter prev cur now"
  by (auto simp: entryAfter_def valueChanged_def split: option.splits)

lemma unchanged_stays:
  "\<not> valueChanged prev cur \<Longrightarrow> \<not> valueChanged (entryAfter prev cur now) cur"
  unfolding valueChanged_entryAfter
  by (auto simp: valueChanged_def split: option.splits dest: strict_eq_not_NaN)

lemma foldl_diffOne_fst:
  "fst (foldl (diffOne data now) acc tgs) t =
     (if t \<in> set tgs then entryAfter (fst acc t) (readOne data t) now else fst acc t)"
proof (induction tgs arbitrary: acc)
  case Nil
  show ?case by simp
next
  case (Cons a tgs)
  have "fst (foldl (diffOne data now) acc (a # tgs)) t =
        fst (foldl (diffOne data now) (diffOne data now acc a) tgs) t"
    by simp
  also have "\<dots> = (if t \<in> set tgs
                    then entryAfter (fst (diffOne data now acc a) t) (readOne data t) now
                    else fst (diffOne data now acc a) t)"
    by (rule Cons.IH)
  also have "\<dots> = (if t \<in> set (a # tgs) then entryAfter (fst acc t) (readOne data t) now
                    else fst acc t)"
    by (simp add: diffOne_eq entryAfter_idem)
  finally show ?case .
qed

lemma foldl_diffOne_ids:
  "u_tagId ` set (snd (foldl (diffOne data now) acc tgs)) =
     u_tagId ` set (snd acc) \<union> {t \<in> set tgs. valueChanged (fst acc t) (readOne data t)}"
proof (induction tgs arbitrary: acc)
  case Nil
  show ?case by simp
next
  case (Cons a tgs)
  have unchanged: "\<not> valueChanged (fst acc a) (readOne data a) \<Longrightarrow>
      \<not> valueChanged (entryAfter (fst acc a) (readOne data a) now) (readOne data a)"
    by (rule unchanged_stays)
  have "u_tagId ` set (snd (foldl (diffOne data now) acc (a # tgs))) =
        u_tagId ` set (snd (foldl (diffOne data now) (diffOne data now acc a) tgs))"
    by simp
  also have "\<dots> = u_tagId ` set (snd (diffOne data now acc a)) \<union>
        {t \<in> set tgs. valueChanged (fst (diffOne data now acc a) t) (readOne data t)}"
    by (rule Cons.IH)
  also have "\<dots> = u_tagId ` set (snd acc) \<union>
        {t \<in> set (a # tgs). valueChanged (fst acc t) (readOne data t)}"
    using unchanged by (auto simp: diffOne_eq)
  finally show ?case .
qed

lemma foldl_diffOne_updates:
  "\<forall>u \<in> set (snd acc). P u \<Longrightarrow>
   \<forall>t \<in> set tgs. P \<lparr>u_tagId = t, u_value = rd_value (readOne data t),
                       u_ts = (case rd_ts (readOne data t) of None \<Rightarrow> now | Some c \<Rightarrow> c)\<rparr> \<Longrightarrow>
   \<forall>u \<in> set (snd (foldl (diffOne data now) acc tgs)). P u"
proof (induction tgs arbitrary: acc)
  case Nil
  then show ?case by simp
next
  case (Cons a tgs)
  have "\<forall>u \<in> set (snd (foldl (diffOne data now) (diffOne data now acc a) tgs)). P u"
    using Cons.prems by (intro Cons.IH) (auto simp: diffOne_eq)
  then show ?case by simp
qed

section \<open>Properties of the poll tick\<close>

lemma computePlcCommsState_cases:
  "(\<exists>x. computePlcCommsState S e d st adv now s = Inl x) \<or>
   (\<exists>data hb. d = Inr data \<and> st = Inr hb)"
  by (cases d; cases st) simp_all

lemma computePlcCommsState_frame:
  assumes "computePlcCommsState S e d st adv now s = Inr r"
  shows "lastSent (fst r) = lastSent s" "sseClients (fst r) = sseClients s"
    "wire (fst r) = wire s" "pollTimer (fst r) = pollTimer s" "lastCommsOk (fst r) = lastCommsOk s"
    "advances (fst r) = advances s + (if adv then 1 else 0)"
proof -
  from assms computePlcCommsState_cases [of S e d st adv now s]
  obtain data hb where d: "d = Inr data" and st: "st = Inr hb"
    by auto
  from assms have r: "r = projr (computePlcCommsState S e (Inr data) (Inr hb) adv now s)"
    unfolding d st by simp
  show "lastSent (fst r) = lastSent s" "sseClients (fst r) = sseClients s"
    "wire (fst r) = wire s" "pollTimer (fst r) = pollTimer s" "lastCommsOk (fst r) = lastCommsOk s"
    "advances (fst r) = advances s + (if adv then 1 else 0)"
    unfolding r computePlcCommsState_Inr by simp_all
qed

lemma writeAll_ok:
  "\<forall>c. \<not> fails c ev \<Longrightarrow> distinct cs \<Longrightarrow>
   writeAll fails ev cs w = (False, \<lambda>c. if c \<in> set cs then w c @ [ev] else w c)"
proof (induction cs arbitrary: w)
  case Nil
  show ?case by simp
next
  case (Cons a cs)
  then show ?case by (auto simp: sseWrite_def fun_eq_iff)
qed

lemma writeAll_appends:
  "\<exists>evs. snd (writeAll fails ev cs w) c = w c @ evs \<and> set evs \<subseteq> {ev}"
proof (induction cs arbitrary: w)
  case Nil
  show ?case by simp
next
  case (Cons a cs)
  show ?case
  proof (cases "fails a ev")
    case True
    then show ?thesis by simp
  next
    case False
    from Cons.IH [of "sseWrite a ev w"] obtain evs where
      "snd (writeAll fails ev cs (sseWrite a ev w)) c = sseWrite a ev w c @ evs" "set evs \<subseteq> {ev}"
      by blast
    with False show ?thesis by (auto simp: sseWrite_def)
  qed
qed

lemma writeEach_appends:
  "\<exists>evs. writeEach fails ev cs w c = w c @ evs \<and> set evs \<subseteq> {ev}"
proof (induction cs arbitrary: w)
  case Nil
  show ?case by simp
next
  case (Cons a cs)
  show ?case
  proof (cases "fails a ev")
    case True
    with Cons.IH [of w] show ?thesis by simp
  next
    case False
    from Cons.IH [of "sseWrite a ev w"] obtain evs where
      "writeEach fails ev cs (sseWrite a ev w) c = sseWrite a ev w c @ evs" "set evs \<subseteq> {ev}"
      by blast
    with False show ?thesis by (auto simp: sseWrite_def)
  qed
qed

lemma diffPatch_frame:
  "lastSent (snd (diffPatch tgs data fails now s)) = fst (diffTags tgs data now (lastSent s))"
  "sseClients (snd (diffPatch tgs data fails now s)) = sseClients s"
  "pollTimer (snd (diffPatch tgs data fails now s)) = pollTimer s"
  "lastBeatTs (snd (diffPatch tgs data fails now s)) = lastBeatTs s"
  "lastBeatVal (snd (diffPatch tgs data fails now s)) = lastBeatVal s"
  "lastCommsOk (snd (diffPatch tgs data fails now s)) = lastCommsOk s"
  "advances (snd (diffPatch tgs data fails now s)) = advances s"
  by (simp_all add: diffPatch_def Let_def)

lemma diffPatch_wire_appends:
  "\<exists>evs. wire (snd (diffPatch tgs data fails now s)) c = wire s c @ evs \<and>
         set evs \<subseteq> {Patch (snd (diffTags tgs data now (lastSent s)))}"
  using writeAll_appends [of fails "Patch (snd (diffTags tgs data now (lastSent s)))" "sseClients s" "wire s" c]
  by (simp add: diffPatch_def Let_def)

lemma diffPatch_wire_ok:
  assumes "\<forall>c ev. \<not> fails c ev" and "distinct (sseClients s)"
  shows "fst (diffPatch tgs data fails now s) = False"
    and "wire (snd (diffPatch tgs data fails now s)) c =
         wire s c @ (if snd (diffTags tgs data now (lastSent s)) \<noteq> [] \<and> c \<in> set (sseClients s)
                     then [Patch (snd (diffTags tgs data now (lastSent s)))] else [])"
  using assms by (simp_all add: diffPatch_def Let_def writeAll_ok)

lemma commsEvent_Inl [simp]:
  "commsEvent S e (Inl x) st fails now s = s"
  "commsEvent S e (Inr data) (Inl y) fails now s = s"
  by (simp_all add: commsEvent_def)

lemma commsEvent_frame:
  "lastSent (commsEvent S e d2 st fails now s) = lastSent s"
  "sseClients (commsEvent S e d2 st fails now s) = sseClients s"
  "pollTimer (commsEvent S e d2 st fails now s) = pollTimer s"
proof -
  show "lastSent (commsEvent S e d2 st fails now s) = lastSent s"
    by (cases "computePlcCommsState S e d2 st True now s")
      (simp_all add: commsEvent_def Let_def computePlcCommsState_frame)
  show "sseClients (commsEvent S e d2 st fails now s) = sseClients s"
    by (cases "computePlcCommsState S e d2 st True now s")
      (simp_all add: commsEvent_def Let_def computePlcCommsState_frame)
  show "pollTimer (commsEvent S e d2 st fails now s) = pollTimer s"
    by (cases "computePlcCommsState S e d2 st True now s")
      (simp_all add: commsEvent_def Let_def computePlcCommsState_frame)
qed

lemma commsEvent_advances:
  "advances (commsEvent S e d2 st fails now s) =
     advances s + (case computePlcCommsState S e d2 st True now s of Inl x \<Rightarrow> 0 | Inr r \<Rightarrow> 1)"
  by (cases "computePlcCommsState S e d2 st True now s")
    (simp_all add: commsEvent_def Let_def computePlcCommsState_frame)

lemma commsEvent_wire_appends:
  "\<exists>evs. wire (commsEvent S e d2 st fails now s) c = wire s c @ evs \<and> (\<forall>ev \<in> set evs. is_comms ev)"
proof (cases "computePlcCommsState S e d2 st True now s")
  case (Inl x)
  then show ?thesis by (simp add: commsEvent_def)
next
  case (Inr r)
  from writeAll_appends [of fails "PlcComms (snd r)" "sseClients s" "wire s" c]
  obtain evs where "snd (writeAll fails (PlcComms (snd r)) (sseClients s) (wire s)) c = wire s c @ evs"
    "set evs \<subseteq> {PlcComms (snd r)}" by blast
  then have "\<exists>evs. snd (writeAll fails (PlcComms (snd r)) (sseClients s) (wire s)) c = wire s c @ evs \<and>
      (\<forall>ev \<in> set evs. is_comms ev)" by auto
  with Inr show ?thesis
    by (simp add: commsEvent_def Let_def computePlcCommsState_frame)
qed

lemma pollTick_Inl [simp]: "pollTick S e tgs (Inl x) d2 st fails now s = s"
  by (simp add: pollTick_def)

lemma pollTick_Inr:
  "pollTick S e tgs (Inr data) d2 st fails now s =
     (if fst (diffPatch tgs data fails now s) then snd (diffPatch tgs data fails now s)
      else commsEvent S e d2 st fails now (snd (diffPatch tgs data fails now s)))"
  by (simp add: pollTick_def Let_def)

lemma pollTick_frame:
  "sseClients (pollTick S e tgs d1 d2 st fails now s) = sseClients s"
  "pollTimer (pollTick S e tgs d1 d2 st fails now s) = pollTimer s"
  by (cases d1; simp add: pollTick_Inr commsEvent_frame diffPatch_frame)+

lemma pollTick_lastSent:
  "lastSent (pollTick S e tgs (Inr data) d2 st fails now s) =
     fst (diffTags tgs data now (lastSent s))"
  by (simp add: pollTick_Inr commsEvent_frame diffPatch_frame)

lemma pollTick_second_query_throws:
  "pollTick S e tgs (Inr data) (Inl x) st fails now s = snd (diffPatch tgs data fails now s)"
  by (simp add: pollTick_Inr)

lemma pollTick_advances:
  "advances (pollTick S e tgs d1 d2 st fails now s) \<le> advances s + 1"
  by (cases d1) (simp_all add: pollTick_Inr commsEvent_advances diffPatch_frame split: sum.splits)

lemma pollTick_wire_appends:
  "\<exists>evs. wire (pollTick S e tgs d1 d2 st fails now s) c = wire s c @ evs"
proof (cases d1)
  case (Inl x)
  then show ?thesis by simp
next
  case (Inr data)
  obtain evs1 where 1: "wire (snd (diffPatch tgs data fails now s)) c = wire s c @ evs1"
    using diffPatch_wire_appends [of tgs data fails now s c] by blast
  obtain evs2 where 2: "wire (commsEvent S e d2 st fails now (snd (diffPatch tgs data fails now s))) c =
      wire (snd (diffPatch tgs data fails now s)) c @ evs2"
    using commsEvent_wire_appends [of S e d2 st fails now "snd (diffPatch tgs data fails now s)" c]
    by blast
  show ?thesis unfolding Inr pollTick_Inr using 1 2 by simp
qed

lemma not_patch_if_comms: "\<forall>ev \<in> set evs. is_comms ev \<Longrightarrow> filter is_patch evs = []"
proof (induction evs)
  case Nil
  show ?case by simp
next
  case (Cons a evs)
  then show ?case by (cases a) simp_all
qed

lemma pollTick_patches:
  assumes "\<forall>c ev. \<not> fails c ev" and "distinct (sseClients s)"
  shows "filter is_patch (wire (pollTick S e tgs (Inr data) d2 st fails now s) c) =
         filter is_patch (wire s c) @
           (if snd (diffTags tgs data now (lastSent s)) \<noteq> [] \<and> c \<in> set (sseClients s)
            then [Patch (snd (diffTags tgs data now (lastSent s)))] else [])"
proof -
  obtain evs2 where 2: "wire (commsEvent S e d2 st fails now (snd (diffPatch tgs data fails now s))) c =
      wire (snd (diffPatch tgs data fails now s)) c @ evs2" and c: "\<forall>ev \<in> set evs2. is_comms ev"
    using commsEvent_wire_appends [of S e d2 st fails now "snd (diffPatch tgs data fails now s)" c]
    by blast
  show ?thesis
    unfolding pollTick_Inr using 2 not_patch_if_comms [OF c]
    by (simp add: diffPatch_wire_ok [OF assms])
qed

lemma pollTick_no_patch:
  assumes "snd (diffTags tgs data now (lastSent s)) = []"
  shows "filter is_patch (wire (pollTick S e tgs (Inr data) d2 st fails now s) c) =
         filter is_patch (wire s c)"
proof -
  have 1: "diffPatch tgs data fails now s = (False, s\<lparr>lastSent := fst (diffTags tgs data now (lastSent s))\<rparr>)"
    using assms by (simp add: diffPatch_def Let_def)
  obtain evs2 where 2: "wire (commsEvent S e d2 st fails now (snd (diffPatch tgs data fails now s))) c =
      wire (snd (diffPatch tgs data fails now s)) c @ evs2" and c: "\<forall>ev \<in> set evs2. is_comms ev"
    using commsEvent_wire_appends [of S e d2 st fails now "snd (diffPatch tgs data fails now s)" c]
    by blast
  show ?thesis
    unfolding pollTick_Inr using 2 not_patch_if_comms [OF c] by (simp add: 1)
qed

lemma diffTags_ids:
  "u_tagId ` set (snd (diffTags tgs data now ls)) =
     {t \<in> set tgs. valueChanged (ls t) (readOne data t)}"
  unfolding diffTags_def using foldl_diffOne_ids [of data now "(ls, [])" tgs] by simp

lemma diffTags_fst:
  "fst (diffTags tgs data now ls) t =
     (if t \<in> set tgs then entryAfter (ls t) (readOne data t) now else ls t)"
  unfolding diffTags_def using foldl_diffOne_fst [of data now "(ls, [])" tgs t] by simp

lemma diffTags_values:
  "\<forall>u \<in> set (snd (diffTags tgs data now ls)).
     u_value u = rd_value (readOne data (u_tagId u)) \<and>
     u_ts u = (case rd_ts (readOne data (u_tagId u)) of None \<Rightarrow> now | Some c \<Rightarrow> c)"
  unfolding diffTags_def by (rule foldl_diffOne_updates) simp_all

lemma diffTags_repeat:
  assumes "\<forall>t \<in> set tgs. rd_value (readOne data t) \<noteq> PNum NaN"
  shows "snd (diffTags tgs data now' (fst (diffTags tgs data now ls))) = []"
proof -
  have "u_tagId ` set (snd (diffTags tgs data now' (fst (diffTags tgs data now ls)))) = {}"
    unfolding diffTags_ids using assms by (auto simp: diffTags_fst valueChanged_entryAfter)
  then show ?thesis by simp
qed

text \<open>
  Claim C1, as amended. In a tick whose first upstream query returns, a tag is in the
  patch batch exactly when it is in the registry and its value differs under \<^verbatim>\<open>!==\<close>
  from the value stored in \<open>lastSent\<close>, a tag with no stored entry counting as
  changed; each update carries the value read. When no write throws, every connected
  client is sent the batch as one \<^verbatim>\<open>patch\<close> event if it is not empty, and no other
  \<^verbatim>\<open>patch\<close>. When the value is unchanged and the source timestamp is newer than the
  stored one, only the stored timestamp is updated and the tag is not in the batch. A
  repeated identical snapshot in which no tag of the registry has the value \<^verbatim>\<open>NaN\<close>
  gives an empty batch, and the tick writes no \<^verbatim>\<open>patch\<close>.
\<close>

theorem poll_tick_diff:
  "lastSent (pollTick S e tgs (Inr data) d2 st fails now s) = fst (diffTags tgs data now (lastSent s)) \<and>
   (\<forall>t. t \<in> u_tagId ` set (snd (diffTags tgs data now (lastSent s))) \<longleftrightarrow>
          t \<in> set tgs \<and> valueChanged (lastSent s t) (readOne data t)) \<and>
   (\<forall>u \<in> set (snd (diffTags tgs data now (lastSent s))).
      u_value u = rd_value (readOne data (u_tagId u))) \<and>
   ((\<forall>c ev. \<not> fails c ev) \<and> distinct (sseClients s) \<longrightarrow>
      (\<forall>c. filter is_patch (wire (pollTick S e tgs (Inr data) d2 st fails now s) c) =
            filter is_patch (wire s c) @
              (if snd (diffTags tgs data now (lastSent s)) \<noteq> [] \<and> c \<in> set (sseClients s)
               then [Patch (snd (diffTags tgs data now (lastSent s)))] else []))) \<and>
   (\<forall>t p c. t \<in> set tgs \<and> lastSent s t = Some p \<and>
        strict_eq (s_value p) (rd_value (readOne data t)) \<and>
        rd_ts (readOne data t) = Some c \<and> s_ts p < c \<longrightarrow>
        lastSent (pollTick S e tgs (Inr data) d2 st fails now s) t = Some \<lparr>s_value = s_value p, s_ts = c\<rparr> \<and>
        t \<notin> u_tagId ` set (snd (diffTags tgs data now (lastSent s)))) \<and>
   ((\<forall>t \<in> set tgs. rd_value (readOne data t) \<noteq> PNum NaN) \<longrightarrow>
      (\<forall>d2' st' fails' now' c.
         snd (diffTags tgs data now' (lastSent (pollTick S e tgs (Inr data) d2 st fails now s))) = [] \<and>
         filter is_patch
           (wire (pollTick S e tgs (Inr data) d2' st' fails' now'
                    (pollTick S e tgs (Inr data) d2 st fails now s)) c) =
         filter is_patch (wire (pollTick S e tgs (Inr data) d2 st fails now s) c)))"
proof (intro conjI allI impI ballI)
  show "lastSent (pollTick S e tgs (Inr data) d2 st fails now s) = fst (diffTags tgs data now (lastSent s))"
    by (rule pollTick_lastSent)
next
  fix t
  show "t \<in> u_tagId ` set (snd (diffTags tgs data now (lastSent s))) \<longleftrightarrow>
          t \<in> set tgs \<and> valueChanged (lastSent s t) (readOne data t)"
    unfolding diffTags_ids by simp
next
  fix u
  assume "u \<in> set (snd (diffTags tgs data now (lastSent s)))"
  with diffTags_values [of tgs data now "lastSent s"]
  show "u_value u = rd_value (readOne data (u_tagId u))" by blast
next
  fix c
  assume "(\<forall>c ev. \<not> fails c ev) \<and> distinct (sseClients s)"
  then show "filter is_patch (wire (pollTick S e tgs (Inr data) d2 st fails now s) c) =
            filter is_patch (wire s c) @
              (if snd (diffTags tgs data now (lastSent s)) \<noteq> [] \<and> c \<in> set (sseClients s)
               then [Patch (snd (diffTags tgs data now (lastSent s)))] else [])"
    by (intro pollTick_patches) simp_all
next
  fix t p c
  assume a: "t \<in> set tgs \<and> lastSent s t = Some p \<and>
        strict_eq (s_value p) (rd_value (readOne data t)) \<and>
        rd_ts (readOne data t) = Some c \<and> s_ts p < c"
  then show "lastSent (pollTick S e tgs (Inr data) d2 st fails now s) t = Some \<lparr>s_value = s_value p, s_ts = c\<rparr>"
    by (simp add: pollTick_lastSent diffTags_fst entryAfter_def valueChanged_def)
  from a show "t \<notin> u_tagId ` set (snd (diffTags tgs data now (lastSent s)))"
    unfolding diffTags_ids by (simp add: valueChanged_def)
next
  fix d2' st' fails' now' c
  assume n: "\<forall>t \<in> set tgs. rd_value (readOne data t) \<noteq> PNum NaN"
  then show r: "snd (diffTags tgs data now' (lastSent (pollTick S e tgs (Inr data) d2 st fails now s))) = []"
    unfolding pollTick_lastSent by (rule diffTags_repeat)
  show "filter is_patch
           (wire (pollTick S e tgs (Inr data) d2' st' fails' now'
                    (pollTick S e tgs (Inr data) d2 st fails now s)) c) =
         filter is_patch (wire (pollTick S e tgs (Inr data) d2 st fails now s) c)"
    by (rule pollTick_no_patch) (rule r)
qed

text \<open>
  An instance: \<^verbatim>\<open>TOHMI_A\<close> is stored with the value 1 and the timestamp 10 and is read
  with the value 1 and the timestamp 20; \<^verbatim>\<open>TOHMI_B\<close> is read for the first time.
\<close>

lemma ex_diff:
  "diffTags [''TOHMI_A'', ''TOHMI_B'']
       (Table [''TOHMI_A'' \<mapsto> Rec (PNum (Fin 1)) (Some 20), ''TOHMI_B'' \<mapsto> Raw (PStr ''x'')]) 100
       [''TOHMI_A'' \<mapsto> \<lparr>s_value = PNum (Fin 1), s_ts = 10\<rparr>]
   = ([''TOHMI_A'' \<mapsto> \<lparr>s_value = PNum (Fin 1), s_ts = 20\<rparr>,
       ''TOHMI_B'' \<mapsto> \<lparr>s_value = PStr ''x'', s_ts = 100\<rparr>],
      [\<lparr>u_tagId = ''TOHMI_B'', u_value = PStr ''x'', u_ts = 100\<rparr>])"
  by (simp add: diffTags_def diffOne_def valueChanged_def Let_def coalesce_def nullish_def)

theorem poll_tick_diff_witness:
  "lastSent (pollTick (\<lambda>x. NaN) \<lparr>env_SSE_POLL_MS = None, env_HEARTBEAT_TIMEOUT_MS = None\<rparr>
       [''TOHMI_A'', ''TOHMI_B'']
       (Inr (Table [''TOHMI_A'' \<mapsto> Rec (PNum (Fin 1)) (Some 20), ''TOHMI_B'' \<mapsto> Raw (PStr ''x'')]))
       (Inl Thrown) (Inr None) (\<lambda>c ev. False) 100
       (initial\<lparr>sseClients := [0],
                lastSent := [''TOHMI_A'' \<mapsto> \<lparr>s_value = PNum (Fin 1), s_ts = 10\<rparr>]\<rparr>)) ''TOHMI_A''
     = Some \<lparr>s_value = PNum (Fin 1), s_ts = 20\<rparr> \<and>
   filter is_patch (wire (pollTick (\<lambda>x. NaN) \<lparr>env_SSE_POLL_MS = None, env_HEARTBEAT_TIMEOUT_MS = None\<rparr>
       [''TOHMI_A'', ''TOHMI_B'']
       (Inr (Table [''TOHMI_A'' \<mapsto> Rec (PNum (Fin 1)) (Some 20), ''TOHMI_B'' \<mapsto> Raw (PStr ''x'')]))
       (Inl Thrown) (Inr None) (\<lambda>c ev. False) 100
       (initial\<lparr>sseClients := [0],
                lastSent := [''TOHMI_A'' \<mapsto> \<lparr>s_value = PNum (Fin 1), s_ts = 10\<rparr>]\<rparr>)) 0)
     = [Patch [\<lparr>u_tagId = ''TOHMI_B'', u_value = PStr ''x'', u_ts = 100\<rparr>]] \<and>
   snd (diffTags [''TOHMI_A'', ''TOHMI_B'']
       (Table [''TOHMI_A'' \<mapsto> Rec (PNum (Fin 1)) (Some 20), ''TOHMI_B'' \<mapsto> Raw (PStr ''x'')]) 350
       (lastSent (pollTick (\<lambda>x. NaN) \<lparr>env_SSE_POLL_MS = None, env_HEARTBEAT_TIMEOUT_MS = None\<rparr>
       [''TOHMI_A'', ''TOHMI_B'']
       (Inr (Table [''TOHMI_A'' \<mapsto> Rec (PNum (Fin 1)) (Some 20), ''TOHMI_B'' \<mapsto> Raw (PStr ''x'')]))
       (Inl Thrown) (Inr None) (\<lambda>c ev. False) 100
       (initial\<lparr>sseClients := [0],
                lastSent := [''TOHMI_A'' \<mapsto> \<lparr>s_value = PNum (Fin 1), s_ts = 10\<rparr>]\<rparr>)))) = []"
proof -
  let ?tgs = "[''TOHMI_A'', ''TOHMI_B'']"
  let ?data = "Table [''TOHMI_A'' \<mapsto> Rec (PNum (Fin 1)) (Some 20), ''TOHMI_B'' \<mapsto> Raw (PStr ''x'')]"
  let ?s = "initial\<lparr>sseClients := [0],
                lastSent := [''TOHMI_A'' \<mapsto> \<lparr>s_value = PNum (Fin 1), s_ts = 10\<rparr>]\<rparr>"
  let ?e = "\<lparr>env_SSE_POLL_MS = None, env_HEARTBEAT_TIMEOUT_MS = None\<rparr>"
  note T = poll_tick_diff [of "\<lambda>x. NaN" ?e ?tgs ?data "Inl Thrown" "Inr None" "\<lambda>c ev. False" 100 ?s]
  note T5 = T [THEN conjunct2, THEN conjunct2, THEN conjunct2, THEN conjunct2, THEN conjunct1,
      rule_format, of "''TOHMI_A''" "\<lparr>s_value = PNum (Fin 1), s_ts = 10\<rparr>" 20, THEN conjunct1]
  have a: "lastSent (pollTick (\<lambda>x. NaN) ?e ?tgs (Inr ?data) (Inl Thrown) (Inr None) (\<lambda>c ev. False) 100 ?s)
      ''TOHMI_A'' = Some \<lparr>s_value = PNum (Fin 1), s_ts = 20\<rparr>"
    using T5 by (simp add: initial_def coalesce_def nullish_def)
  note T4 = T [THEN conjunct2, THEN conjunct2, THEN conjunct2, THEN conjunct1, rule_format, of 0]
  have b: "filter is_patch (wire (pollTick (\<lambda>x. NaN) ?e ?tgs (Inr ?data) (Inl Thrown) (Inr None) (\<lambda>c ev. False) 100 ?s) 0)
     = [Patch [\<lparr>u_tagId = ''TOHMI_B'', u_value = PStr ''x'', u_ts = 100\<rparr>]]"
    using T4 by (simp add: initial_def ex_diff)
  note T6 = T [THEN conjunct2, THEN conjunct2, THEN conjunct2, THEN conjunct2, THEN conjunct2,
      rule_format, of 350, THEN conjunct1]
  have c: "snd (diffTags ?tgs ?data 350 (lastSent (pollTick (\<lambda>x. NaN) ?e ?tgs (Inr ?data) (Inl Thrown) (Inr None) (\<lambda>c ev. False) 100 ?s))) = []"
    using T6 by (simp add: coalesce_def nullish_def)
  from a b c show ?thesis by (intro conjI)
qed

text \<open>
  Claim C1 as stated fails in its last part: \<^verbatim>\<open>NaN !== NaN\<close> holds, so a tag whose value
  is \<^verbatim>\<open>NaN\<close> is in the batch of every tick. Two ticks on the same snapshot write two
  patches to the connected client.
\<close>

theorem repeated_NaN_snapshot_counterexample:
  "filter is_patch
     (wire (run (\<lambda>x. NaN) \<lparr>env_SSE_POLL_MS = None, env_HEARTBEAT_TIMEOUT_MS = None\<rparr> [''TOHMI_Speed'']
              (initial\<lparr>sseClients := [0]\<rparr>)
              [Tick (Inr (Table [''TOHMI_Speed'' \<mapsto> Raw (PNum NaN)]))
                    (Inr (Table [''TOHMI_Speed'' \<mapsto> Raw (PNum NaN)])) (Inr None) (\<lambda>c ev. False) 1000,
               Tick (Inr (Table [''TOHMI_Speed'' \<mapsto> Raw (PNum NaN)]))
                    (Inr (Table [''TOHMI_Speed'' \<mapsto> Raw (PNum NaN)])) (Inr None) (\<lambda>c ev. False) 1250]) 0)
   = [Patch [\<lparr>u_tagId = ''TOHMI_Speed'', u_value = PNum NaN, u_ts = 1000\<rparr>],
      Patch [\<lparr>u_tagId = ''TOHMI_Speed'', u_value = PNum NaN, u_ts = 1250\<rparr>]]"
  by (simp add: run_def pollTick_Inr diffPatch_def commsEvent_def computePlcCommsState_Inr
        diffTags_def diffOne_def valueChanged_def Let_def initial_def sseWrite_def hbTag_of_def
        beatDetected_def classify_TOHMI_CRC_Handshake HEARTBEAT_TIMEOUT_MS_def POLL_MS_def)

lemma not_comms_if_patch: "set evs \<subseteq> {Patch us} \<Longrightarrow> filter is_comms evs = []"
  by (induction evs) auto

text \<open>
  Claim C8, as amended. A tick whose first upstream query (line 284) throws leaves the
  whole state as it was and writes nothing. A tick whose upstream query throws at its
  second call (line 236, inside \<^verbatim>\<open>computePlcCommsState\<close>) ends after the diff and patch
  part: the liveness state is unchanged and no \<^verbatim>\<open>plc-comms\<close> event is written, while
  the update of \<open>lastSent\<close> and the patch written before stay. No tick changes the
  timer or the client set, and the ticks after a failed one run from the state it left.
\<close>

theorem failed_tick:
  "pollTick S e tgs (Inl x) d2 st fails now s = s \<and>
   pollTick S e tgs (Inr data) (Inl x) st fails now s = snd (diffPatch tgs data fails now s) \<and>
   lastBeatTs (pollTick S e tgs (Inr data) (Inl x) st fails now s) = lastBeatTs s \<and>
   lastBeatVal (pollTick S e tgs (Inr data) (Inl x) st fails now s) = lastBeatVal s \<and>
   lastCommsOk (pollTick S e tgs (Inr data) (Inl x) st fails now s) = lastCommsOk s \<and>
   advances (pollTick S e tgs (Inr data) (Inl x) st fails now s) = advances s \<and>
   filter is_comms (wire (pollTick S e tgs (Inr data) (Inl x) st fails now s) c) =
     filter is_comms (wire s c) \<and>
   pollTimer (pollTick S e tgs d1 d2 st fails now s) = pollTimer s \<and>
   sseClients (pollTick S e tgs d1 d2 st fails now s) = sseClients s \<and>
   run S e tgs s (Tick (Inl x) d2 st fails now # ops) = run S e tgs s ops"
proof -
  obtain evs where w: "wire (snd (diffPatch tgs data fails now s)) c = wire s c @ evs"
    and p: "set evs \<subseteq> {Patch (snd (diffTags tgs data now (lastSent s)))}"
    using diffPatch_wire_appends [of tgs data fails now s c] by blast
  have "filter is_comms (wire (snd (diffPatch tgs data fails now s)) c) = filter is_comms (wire s c)"
    unfolding w using not_comms_if_patch [OF p] by simp
  then show ?thesis
    by (simp add: pollTick_second_query_throws diffPatch_frame pollTick_frame run_def)
qed

theorem failed_tick_witness:
  "pollTick (\<lambda>x. NaN) \<lparr>env_SSE_POLL_MS = None, env_HEARTBEAT_TIMEOUT_MS = None\<rparr> [''TOHMI_Speed'']
     (Inl Thrown) (Inl Thrown) (Inr None) (\<lambda>c ev. False) 1000 (initial\<lparr>sseClients := [0]\<rparr>)
   = initial\<lparr>sseClients := [0]\<rparr> \<and>
   run (\<lambda>x. NaN) \<lparr>env_SSE_POLL_MS = None, env_HEARTBEAT_TIMEOUT_MS = None\<rparr> [''TOHMI_Speed'']
     (initial\<lparr>sseClients := [0]\<rparr>)
     [Tick (Inl Thrown) (Inl Thrown) (Inr None) (\<lambda>c ev. False) 1000,
      Tick (Inr (Table [''TOHMI_Speed'' \<mapsto> Raw (PNum (Fin 5))])) (Inl Thrown) (Inr None)
        (\<lambda>c ev. False) 1250]
   = initial\<lparr>sseClients := [0],
       lastSent := [''TOHMI_Speed'' \<mapsto> \<lparr>s_value = PNum (Fin 5), s_ts = 1250\<rparr>],
       wire := (\<lambda>c. [])(0 := [Patch [\<lparr>u_tagId = ''TOHMI_Speed'', u_value = PNum (Fin 5), u_ts = 1250\<rparr>]])\<rparr>"
  using failed_tick [of "\<lambda>x. NaN" "\<lparr>env_SSE_POLL_MS = None, env_HEARTBEAT_TIMEOUT_MS = None\<rparr>"
      "[''TOHMI_Speed'']" Thrown "Inl Thrown" "Inr None" "\<lambda>c ev. False" 1000 "initial\<lparr>sseClients := [0]\<rparr>"
      "Table [''TOHMI_Speed'' \<mapsto> Raw (PNum (Fin 5))]" 0 "Inl Thrown"
      "[Tick (Inr (Table [''TOHMI_Speed'' \<mapsto> Raw (PNum (Fin 5))])) (Inl Thrown) (Inr None)
        (\<lambda>c ev. False) 1250]"]
  by (simp add: run_def pollTick_second_query_throws diffPatch_def diffTags_def diffOne_def
        valueChanged_def Let_def initial_def sseWrite_def)

text \<open>
  Claim C8 as stated fails when the upstream query throws at its second call of the
  tick: \<open>lastSent\<close> has been updated and the patch has been written by then.
\<close>

theorem second_query_throws_counterexample:
  "lastSent (initial\<lparr>sseClients := [0]\<rparr>) ''TOHMI_Speed'' = None \<and>
   wire (initial\<lparr>sseClients := [0]\<rparr>) 0 = [] \<and>
   lastSent (pollTick (\<lambda>x. NaN) \<lparr>env_SSE_POLL_MS = None, env_HEARTBEAT_TIMEOUT_MS = None\<rparr>
       [''TOHMI_Speed''] (Inr (Table [''TOHMI_Speed'' \<mapsto> Raw (PNum (Fin 5))])) (Inl Thrown)
       (Inr None) (\<lambda>c ev. False) 1000 (initial\<lparr>sseClients := [0]\<rparr>)) ''TOHMI_Speed''
     = Some \<lparr>s_value = PNum (Fin 5), s_ts = 1000\<rparr> \<and>
   wire (pollTick (\<lambda>x. NaN) \<lparr>env_SSE_POLL_MS = None, env_HEARTBEAT_TIMEOUT_MS = None\<rparr>
       [''TOHMI_Speed''] (Inr (Table [''TOHMI_Speed'' \<mapsto> Raw (PNum (Fin 5))])) (Inl Thrown)
       (Inr None) (\<lambda>c ev. False) 1000 (initial\<lparr>sseClients := [0]\<rparr>)) 0
     = [Patch [\<lparr>u_tagId = ''TOHMI_Speed'', u_value = PNum (Fin 5), u_ts = 1000\<rparr>]]"
  by (simp add: pollTick_second_query_throws diffPatch_def diffTags_def diffOne_def
        valueChanged_def Let_def initial_def sseWrite_def)

section \<open>Properties of the streaming endpoint and of runs\<close>

lemma writeEach_distinct:
  "distinct cs \<Longrightarrow>
   writeEach fails ev cs w = (\<lambda>c. if c \<in> set cs \<and> \<not> fails c ev then w c @ [ev] else w c)"
proof (induction cs arbitrary: w)
  case Nil
  show ?case by simp
next
  case (Cons a cs)
  then show ?case by (auto simp: sseWrite_def fun_eq_iff)
qed

lemma sendComms_frame:
  "lastSent (sendComms S e c d2 st fails now s) = lastSent s"
  "sseClients (sendComms S e c d2 st fails now s) = sseClients s"
  "pollTimer (sendComms S e c d2 st fails now s) = pollTimer s"
  "lastCommsOk (sendComms S e c d2 st fails now s) = lastCommsOk s"
  by (cases "computePlcCommsState S e d2 st True now s";
      simp add: sendComms_def computePlcCommsState_frame)+

lemma sendComms_advances:
  "advances (sendComms S e c d2 st fails now s) =
     advances s + (case computePlcCommsState S e d2 st True now s of Inl x \<Rightarrow> 0 | Inr r \<Rightarrow> 1)"
  by (cases "computePlcCommsState S e d2 st True now s")
    (simp_all add: sendComms_def computePlcCommsState_frame)

lemma sendComms_wire_appends:
  "\<exists>evs. wire (sendComms S e c d2 st fails now s) c' = wire s c' @ evs"
  by (cases "computePlcCommsState S e d2 st True now s")
    (simp_all add: sendComms_def computePlcCommsState_frame sseWrite_def)

lemma sendInitial_frame:
  "lastSent (sendInitial S e tgs c d1 d2 st fails now s) = lastSent s"
  "sseClients (sendInitial S e tgs c d1 d2 st fails now s) = sseClients s"
  "pollTimer (sendInitial S e tgs c d1 d2 st fails now s) = pollTimer s"
  "lastCommsOk (sendInitial S e tgs c d1 d2 st fails now s) = lastCommsOk s"
  by (cases d1; simp add: sendInitial_def Let_def sendComms_frame)+

lemma sendInitial_advances:
  "advances (sendInitial S e tgs c d1 d2 st fails now s) \<le> advances s + 1"
  by (cases d1) (simp_all add: sendInitial_def Let_def sendComms_advances split: sum.splits)

lemma sendInitial_wire_appends:
  "\<exists>evs. wire (sendInitial S e tgs c d1 d2 st fails now s) c' = wire s c' @ evs"
proof (cases d1)
  case (Inl x)
  then show ?thesis by (simp add: sendInitial_def)
next
  case (Inr data)
  let ?sa = "if initialUpdates data tgs now \<noteq> []
             then s\<lparr>wire := sseWrite c (Patch (initialUpdates data tgs now)) (wire s)\<rparr> else s"
  obtain evs where "wire (sendComms S e c d2 st fails now ?sa) c' = wire ?sa c' @ evs"
    using sendComms_wire_appends by blast
  then show ?thesis unfolding Inr by (simp add: sendInitial_def Let_def sseWrite_def)
qed

lemma hmi_data_advances:
  "advances (hmi_data S e tgs c opc d1 d2 st fails now s) \<le> advances s + 1"
  using sendInitial_advances [of S e tgs c d1 d2 st fails now
      "s\<lparr>wire := sseWrite c (Hello now opc (POLL_MS e)) (wire s)\<rparr>"]
  by (simp add: hmi_data_def Let_def startPolling_def)

lemma hmi_data_wire_appends:
  "\<exists>evs. wire (hmi_data S e tgs c opc d1 d2 st fails now s) c' = wire s c' @ evs"
proof -
  obtain evs where "wire (sendInitial S e tgs c d1 d2 st fails now
      (s\<lparr>wire := sseWrite c (Hello now opc (POLL_MS e)) (wire s)\<rparr>)) c' =
      wire (s\<lparr>wire := sseWrite c (Hello now opc (POLL_MS e)) (wire s)\<rparr>) c' @ evs"
    using sendInitial_wire_appends by blast
  then show ?thesis by (simp add: hmi_data_def Let_def startPolling_def sseWrite_def)
qed

lemma hmi_data_clients:
  "set (sseClients s) \<subseteq> set (sseClients (hmi_data S e tgs c opc d1 d2 st fails now s))"
  by (auto simp: hmi_data_def Let_def startPolling_def sendInitial_frame set_add_def)

lemma keepalive_frame:
  "sseClients (keepalive fails now s) = sseClients s"
  "lastBeatTs (keepalive fails now s) = lastBeatTs s"
  "lastBeatVal (keepalive fails now s) = lastBeatVal s"
  "advances (keepalive fails now s) = advances s"
  "lastSent (keepalive fails now s) = lastSent s"
  "pollTimer (keepalive fails now s) = pollTimer s"
  by (simp_all add: keepalive_def)

lemma keepalive_wire_appends:
  "\<exists>evs. wire (keepalive fails now s) c = wire s c @ evs"
  using writeEach_appends [of fails "Heartbeat now" "sseClients s" "wire s" c]
  by (auto simp: keepalive_def)

lemma step_wire_appends:
  "\<exists>evs. wire (step S e tgs s op) c = wire s c @ evs"
proof (cases op)
  case (Tick d1 d2 st fails now)
  then show ?thesis using pollTick_wire_appends by simp
next
  case (Connect c' opc d1 d2 st fails now)
  then show ?thesis using hmi_data_wire_appends by simp
next
  case (KeepAlive fails now)
  then show ?thesis using keepalive_wire_appends by simp
next
  case (Close c')
  then show ?thesis by (simp add: on_close_def)
qed

lemma run_wire_appends:
  "\<exists>evs. wire (run S e tgs s ops) c = wire s c @ evs"
proof (induction ops arbitrary: s)
  case Nil
  show ?case by (simp add: run_def)
next
  case (Cons op ops)
  obtain evs1 where 1: "wire (step S e tgs s op) c = wire s c @ evs1"
    using step_wire_appends by blast
  obtain evs2 where 2: "wire (run S e tgs (step S e tgs s op) ops) c =
      wire (step S e tgs s op) c @ evs2"
    using Cons.IH by blast
  have "run S e tgs s (op # ops) = run S e tgs (step S e tgs s op) ops"
    by (simp add: run_def)
  with 1 2 show ?case by simp
qed

lemma step_advances:
  "advances (step S e tgs s op) \<le> advances s + (if is_tick op \<or> is_connect op then 1 else 0)"
proof (cases op)
  case (Tick d1 d2 st fails now)
  then show ?thesis using pollTick_advances [of S e tgs d1 d2 st fails now s] by simp
next
  case (Connect c' opc d1 d2 st fails now)
  then show ?thesis using hmi_data_advances [of S e tgs c' opc d1 d2 st fails now s] by simp
next
  case (KeepAlive fails now)
  then show ?thesis by (simp add: keepalive_frame)
next
  case (Close c')
  then show ?thesis by (simp add: on_close_def)
qed

lemma run_advances:
  "advances (run S e tgs s ops) \<le>
     advances s + length (filter (\<lambda>op. is_tick op \<or> is_connect op) ops)"
proof (induction ops arbitrary: s)
  case Nil
  show ?case by (simp add: run_def)
next
  case (Cons op ops)
  have r: "run S e tgs s (op # ops) = run S e tgs (step S e tgs s op) ops"
    by (simp add: run_def)
  from Cons.IH [of "step S e tgs s op"] step_advances [of S e tgs s op]
  show ?case unfolding r by (cases "is_tick op \<or> is_connect op") auto
qed

lemma commsEvent_liveness:
  assumes "advances (commsEvent S e d2 st fails now s) = advances s"
  shows "lastBeatTs (commsEvent S e d2 st fails now s) = lastBeatTs s \<and>
         lastBeatVal (commsEvent S e d2 st fails now s) = lastBeatVal s"
proof (cases "computePlcCommsState S e d2 st True now s")
  case (Inl x)
  then show ?thesis by (simp add: commsEvent_def)
next
  case (Inr r)
  with assms commsEvent_advances [of S e d2 st fails now s] have False by simp
  then show ?thesis ..
qed

lemma sendComms_liveness:
  assumes "advances (sendComms S e c d2 st fails now s) = advances s"
  shows "lastBeatTs (sendComms S e c d2 st fails now s) = lastBeatTs s \<and>
         lastBeatVal (sendComms S e c d2 st fails now s) = lastBeatVal s"
proof (cases "computePlcCommsState S e d2 st True now s")
  case (Inl x)
  then show ?thesis by (simp add: sendComms_def)
next
  case (Inr r)
  with assms sendComms_advances [of S e c d2 st fails now s] have False by simp
  then show ?thesis ..
qed

lemma pollTick_liveness:
  assumes "advances (pollTick S e tgs d1 d2 st fails now s) = advances s"
  shows "lastBeatTs (pollTick S e tgs d1 d2 st fails now s) = lastBeatTs s \<and>
         lastBeatVal (pollTick S e tgs d1 d2 st fails now s) = lastBeatVal s"
proof (cases d1)
  case (Inl x)
  then show ?thesis by simp
next
  case (Inr data)
  show ?thesis
  proof (cases "fst (diffPatch tgs data fails now s)")
    case True
    then show ?thesis unfolding Inr by (simp add: pollTick_Inr diffPatch_frame)
  next
    case False
    with assms have "advances (commsEvent S e d2 st fails now (snd (diffPatch tgs data fails now s))) =
        advances (snd (diffPatch tgs data fails now s))"
      unfolding Inr by (simp add: pollTick_Inr diffPatch_frame)
    from commsEvent_liveness [OF this] False show ?thesis
      unfolding Inr by (simp add: pollTick_Inr diffPatch_frame)
  qed
qed

lemma sendInitial_liveness:
  assumes "advances (sendInitial S e tgs c d1 d2 st fails now s) = advances s"
  shows "lastBeatTs (sendInitial S e tgs c d1 d2 st fails now s) = lastBeatTs s \<and>
         lastBeatVal (sendInitial S e tgs c d1 d2 st fails now s) = lastBeatVal s"
proof (cases d1)
  case (Inl x)
  then show ?thesis by (simp add: sendInitial_def)
next
  case (Inr data)
  let ?sa = "if initialUpdates data tgs now \<noteq> []
             then s\<lparr>wire := sseWrite c (Patch (initialUpdates data tgs now)) (wire s)\<rparr> else s"
  have sa: "advances ?sa = advances s" "lastBeatTs ?sa = lastBeatTs s" "lastBeatVal ?sa = lastBeatVal s"
    by simp_all
  show ?thesis
  proof (cases "initialUpdates data tgs now \<noteq> [] \<and> fails c (Patch (initialUpdates data tgs now))")
    case True
    then show ?thesis unfolding Inr by (simp add: sendInitial_def Let_def)
  next
    case False
    then have eq: "sendInitial S e tgs c (Inr data) d2 st fails now s = sendComms S e c d2 st fails now ?sa"
      by (auto simp: sendInitial_def Let_def)
    from assms have "advances (sendComms S e c d2 st fails now ?sa) = advances ?sa"
      unfolding Inr eq sa .
    from sendComms_liveness [OF this] show ?thesis unfolding Inr eq sa .
  qed
qed

lemma startPolling_frame:
  "advances (startPolling s) = advances s"
  "lastBeatTs (startPolling s) = lastBeatTs s"
  "lastBeatVal (startPolling s) = lastBeatVal s"
  "wire (startPolling s) = wire s"
  "sseClients (startPolling s) = sseClients s"
  "lastSent (startPolling s) = lastSent s"
  "lastCommsOk (startPolling s) = lastCommsOk s"
  "pollTimer (startPolling s)"
  by (simp_all add: startPolling_def)

lemma hmi_data_liveness:
  assumes "advances (hmi_data S e tgs c opc d1 d2 st fails now s) = advances s"
  shows "lastBeatTs (hmi_data S e tgs c opc d1 d2 st fails now s) = lastBeatTs s \<and>
         lastBeatVal (hmi_data S e tgs c opc d1 d2 st fails now s) = lastBeatVal s"
proof (cases "fails c (Hello now opc (POLL_MS e))")
  case True
  then show ?thesis by (simp add: hmi_data_def)
next
  case False
  let ?s0 = "s\<lparr>wire := sseWrite c (Hello now opc (POLL_MS e)) (wire s)\<rparr>"
  from assms False have "advances (sendInitial S e tgs c d1 d2 st fails now ?s0) = advances ?s0"
    by (simp add: hmi_data_def Let_def startPolling_frame)
  from sendInitial_liveness [OF this] False show ?thesis
    by (simp add: hmi_data_def Let_def startPolling_frame)
qed

lemma step_liveness:
  assumes "advances (step S e tgs s op) = advances s"
  shows "lastBeatTs (step S e tgs s op) = lastBeatTs s \<and>
         lastBeatVal (step S e tgs s op) = lastBeatVal s"
proof (cases op)
  case (Tick d1 d2 st fails now)
  with assms pollTick_liveness [of S e tgs d1 d2 st fails now s] show ?thesis by simp
next
  case (Connect c' opc d1 d2 st fails now)
  with assms hmi_data_liveness [of S e tgs c' opc d1 d2 st fails now s] show ?thesis by simp
next
  case (KeepAlive fails now)
  then show ?thesis by (simp add: keepalive_frame)
next
  case (Close c')
  then show ?thesis by (simp add: on_close_def)
qed

lemma filter_no_tick:
  "\<forall>op \<in> set ops. \<not> is_tick op \<Longrightarrow>
   filter (\<lambda>op. is_tick op \<or> is_connect op) ops = filter is_connect ops"
  by (induction ops) auto

text \<open>
  Claim C3, as amended. Every poll tick and every request to the streaming endpoint
  advances the state of the liveness detector at most once, and no other operation
  (keepalive, close) writes it: \<open>lastBeatTs\<close> and \<open>lastBeatVal\<close> change only in an
  operation that runs the assignment of line 266, which \<open>advances\<close> counts. Between two
  consecutive ticks the state is written at most once for each request to the streaming
  endpoint made in between.
\<close>

theorem liveness_writes:
  "advances (step S e tgs s op) \<le> advances s + 1 \<and>
   (\<not> is_tick op \<and> \<not> is_connect op \<longrightarrow> advances (step S e tgs s op) = advances s) \<and>
   (advances (step S e tgs s op) = advances s \<longrightarrow>
      lastBeatTs (step S e tgs s op) = lastBeatTs s \<and>
      lastBeatVal (step S e tgs s op) = lastBeatVal s) \<and>
   ((\<forall>op \<in> set ops. \<not> is_tick op) \<longrightarrow>
      advances (run S e tgs s ops) \<le> advances s + length (filter is_connect ops))"
proof (intro conjI impI)
  show "advances (step S e tgs s op) \<le> advances s + 1"
    using step_advances [of S e tgs s op] by (simp split: if_splits)
next
  assume "\<not> is_tick op \<and> \<not> is_connect op"
  then show "advances (step S e tgs s op) = advances s"
    by (cases op) (simp_all add: keepalive_frame on_close_def)
next
  assume "advances (step S e tgs s op) = advances s"
  then show "lastBeatTs (step S e tgs s op) = lastBeatTs s"
    and "lastBeatVal (step S e tgs s op) = lastBeatVal s"
    using step_liveness by blast+
next
  assume "\<forall>op \<in> set ops. \<not> is_tick op"
  from filter_no_tick [OF this] run_advances [of S e tgs s ops]
  show "advances (run S e tgs s ops) \<le> advances s + length (filter is_connect ops)"
    by simp
qed

theorem liveness_writes_witness:
  "advances (step (\<lambda>x. NaN) \<lparr>env_SSE_POLL_MS = None, env_HEARTBEAT_TIMEOUT_MS = None\<rparr> []
       initial (KeepAlive (\<lambda>c ev. False) 3000)) = 0 \<and>
   lastBeatVal (step (\<lambda>x. NaN) \<lparr>env_SSE_POLL_MS = None, env_HEARTBEAT_TIMEOUT_MS = None\<rparr> []
       initial (KeepAlive (\<lambda>c ev. False) 3000)) = PUndefined \<and>
   advances (run (\<lambda>x. NaN) \<lparr>env_SSE_POLL_MS = None, env_HEARTBEAT_TIMEOUT_MS = None\<rparr> []
       initial [KeepAlive (\<lambda>c ev. False) 3000,
                Connect 1 ''ok'' (Inr NoData) (Inr NoData) (Inr None) (\<lambda>c ev. False) 3100,
                Close 1]) \<le> 1"
  using liveness_writes [of "\<lambda>x. NaN" "\<lparr>env_SSE_POLL_MS = None, env_HEARTBEAT_TIMEOUT_MS = None\<rparr>" "[]"
      initial "KeepAlive (\<lambda>c ev. False) 3000"
      "[KeepAlive (\<lambda>c ev. False) 3000,
        Connect 1 ''ok'' (Inr NoData) (Inr NoData) (Inr None) (\<lambda>c ev. False) 3100, Close 1]"]
  by (simp add: initial_def)

text \<open>
  Claim C3 as stated fails: the handler of the streaming endpoint calls
  \<^verbatim>\<open>computePlcCommsState\<close> with \<^verbatim>\<open>advanceState: true\<close> (line 429). After a tick, two
  clients connect before the next tick, and the state is written twice: the raw value
  goes from 1 to 2 and then to 3.
\<close>

theorem connect_advances_counterexample:
  "\<not> is_tick (Connect 1 ''ok'' (Inr (Table [''TOHMI_CRC_Handshake'' \<mapsto> Raw (PNum (Fin 2))]))
       (Inr (Table [''TOHMI_CRC_Handshake'' \<mapsto> Raw (PNum (Fin 2))])) (Inr None) (\<lambda>c ev. False) 1100) \<and>
   \<not> is_tick (Connect 2 ''ok'' (Inr (Table [''TOHMI_CRC_Handshake'' \<mapsto> Raw (PNum (Fin 3))]))
       (Inr (Table [''TOHMI_CRC_Handshake'' \<mapsto> Raw (PNum (Fin 3))])) (Inr None) (\<lambda>c ev. False) 1200) \<and>
   advances (run (\<lambda>x. NaN) \<lparr>env_SSE_POLL_MS = None, env_HEARTBEAT_TIMEOUT_MS = None\<rparr> []
       (initial\<lparr>sseClients := [0], pollTimer := True\<rparr>)
       [Tick (Inr (Table [''TOHMI_CRC_Handshake'' \<mapsto> Raw (PNum (Fin 1))]))
          (Inr (Table [''TOHMI_CRC_Handshake'' \<mapsto> Raw (PNum (Fin 1))])) (Inr None) (\<lambda>c ev. False) 1000])
     = 1 \<and>
   lastBeatVal (run (\<lambda>x. NaN) \<lparr>env_SSE_POLL_MS = None, env_HEARTBEAT_TIMEOUT_MS = None\<rparr> []
       (initial\<lparr>sseClients := [0], pollTimer := True\<rparr>)
       [Tick (Inr (Table [''TOHMI_CRC_Handshake'' \<mapsto> Raw (PNum (Fin 1))]))
          (Inr (Table [''TOHMI_CRC_Handshake'' \<mapsto> Raw (PNum (Fin 1))])) (Inr None) (\<lambda>c ev. False) 1000])
     = PNum (Fin 1) \<and>
   lastBeatVal (run (\<lambda>x. NaN) \<lparr>env_SSE_POLL_MS = None, env_HEARTBEAT_TIMEOUT_MS = None\<rparr> []
       (initial\<lparr>sseClients := [0], pollTimer := True\<rparr>)
       [Tick (Inr (Table [''TOHMI_CRC_Handshake'' \<mapsto> Raw (PNum (Fin 1))]))
          (Inr (Table [''TOHMI_CRC_Handshake'' \<mapsto> Raw (PNum (Fin 1))])) (Inr None) (\<lambda>c ev. False) 1000,
        Connect 1 ''ok'' (Inr (Table [''TOHMI_CRC_Handshake'' \<mapsto> Raw (PNum (Fin 2))]))
          (Inr (Table [''TOHMI_CRC_Handshake'' \<mapsto> Raw (PNum (Fin 2))])) (Inr None) (\<lambda>c ev. False) 1100])
     = PNum (Fin 2) \<and>
   lastBeatVal (run (\<lambda>x. NaN) \<lparr>env_SSE_POLL_MS = None, env_HEARTBEAT_TIMEOUT_MS = None\<rparr> []
       (initial\<lparr>sseClients := [0], pollTimer := True\<rparr>)
       [Tick (Inr (Table [''TOHMI_CRC_Handshake'' \<mapsto> Raw (PNum (Fin 1))]))
          (Inr (Table [''TOHMI_CRC_Handshake'' \<mapsto> Raw (PNum (Fin 1))])) (Inr None) (\<lambda>c ev. False) 1000,
        Connect 1 ''ok'' (Inr (Table [''TOHMI_CRC_Handshake'' \<mapsto> Raw (PNum (Fin 2))]))
          (Inr (Table [''TOHMI_CRC_Handshake'' \<mapsto> Raw (PNum (Fin 2))])) (Inr None) (\<lambda>c ev. False) 1100,
        Connect 2 ''ok'' (Inr (Table [''TOHMI_CRC_Handshake'' \<mapsto> Raw (PNum (Fin 3))]))
          (Inr (Table [''TOHMI_CRC_Handshake'' \<mapsto> Raw (PNum (Fin 3))])) (Inr None) (\<lambda>c ev. False) 1200])
     = PNum (Fin 3) \<and>
   advances (run (\<lambda>x. NaN) \<lparr>env_SSE_POLL_MS = None, env_HEARTBEAT_TIMEOUT_MS = None\<rparr> []
       (initial\<lparr>sseClients := [0], pollTimer := True\<rparr>)
       [Tick (Inr (Table [''TOHMI_CRC_Handshake'' \<mapsto> Raw (PNum (Fin 1))]))
          (Inr (Table [''TOHMI_CRC_Handshake'' \<mapsto> Raw (PNum (Fin 1))])) (Inr None) (\<lambda>c ev. False) 1000,
        Connect 1 ''ok'' (Inr (Table [''TOHMI_CRC_Handshake'' \<mapsto> Raw (PNum (Fin 2))]))
          (Inr (Table [''TOHMI_CRC_Handshake'' \<mapsto> Raw (PNum (Fin 2))])) (Inr None) (\<lambda>c ev. False) 1100,
        Connect 2 ''ok'' (Inr (Table [''TOHMI_CRC_Handshake'' \<mapsto> Raw (PNum (Fin 3))]))
          (Inr (Table [''TOHMI_CRC_Handshake'' \<mapsto> Raw (PNum (Fin 3))])) (Inr None) (\<lambda>c ev. False) 1200])
     = 3"
  by (simp add: run_def pollTick_Inr diffPatch_def diffTags_def commsEvent_def hmi_data_def
        sendInitial_def sendComms_def initialUpdates_def buildSnapshot_def
        computePlcCommsState_Inr Let_def initial_def startPolling_def set_add_def hbTag_of_def)

lemma set_add_distinct: "distinct cs \<Longrightarrow> distinct (set_add c cs)"
  by (simp add: set_add_def)

lemma step_distinct:
  assumes "distinct (sseClients s)"
  shows "distinct (sseClients (step S e tgs s op))"
proof (cases op)
  case (Tick d1 d2 st fails now)
  with assms show ?thesis by (simp add: pollTick_frame)
next
  case (Connect c' opc d1 d2 st fails now)
  with assms show ?thesis
    by (simp add: hmi_data_def Let_def startPolling_frame sendInitial_frame set_add_distinct)
next
  case (KeepAlive fails now)
  with assms show ?thesis by (simp add: keepalive_frame)
next
  case (Close c')
  with assms show ?thesis by (simp add: on_close_def set_delete_def distinct_removeAll)
qed

lemma step_keeps_clients:
  assumes "\<forall>c. op \<noteq> Close c"
  shows "set (sseClients s) \<subseteq> set (sseClients (step S e tgs s op))"
proof (cases op)
  case (Tick d1 d2 st fails now)
  then show ?thesis by (simp add: pollTick_frame)
next
  case (Connect c' opc d1 d2 st fails now)
  then show ?thesis using hmi_data_clients by simp
next
  case (KeepAlive fails now)
  then show ?thesis by (simp add: keepalive_frame)
next
  case (Close c')
  with assms show ?thesis by simp
qed

text \<open>
  Claim C2, as amended. In a keepalive broadcast a write that throws on one client does
  not prevent delivery to the others: every registered client whose write does not
  throw is sent the keepalive event once. No broadcast, of a patch, of a comms event or
  of a keepalive, removes a client from the client set; a client leaves the set only
  through the handler of its request's \<^verbatim>\<open>close\<close> event. The client set never holds a
  client twice.
\<close>

theorem keepalive_isolation:
  "(distinct (sseClients s) \<longrightarrow>
      (\<forall>c. wire (keepalive fails now s) c =
            wire s c @ (if c \<in> set (sseClients s) \<and> \<not> fails c (Heartbeat now)
                        then [Heartbeat now] else []))) \<and>
   (distinct (sseClients s) \<longrightarrow> distinct (sseClients (step S e tgs s op))) \<and>
   sseClients (keepalive fails now s) = sseClients s \<and>
   sseClients (pollTick S e tgs d1 d2 st fails' now' s) = sseClients s \<and>
   ((\<forall>c. op \<noteq> Close c) \<longrightarrow> set (sseClients s) \<subseteq> set (sseClients (step S e tgs s op))) \<and>
   sseClients (on_close c0 s) = removeAll c0 (sseClients s)"
proof (intro conjI impI allI)
  fix c
  assume "distinct (sseClients s)"
  then show "wire (keepalive fails now s) c =
            wire s c @ (if c \<in> set (sseClients s) \<and> \<not> fails c (Heartbeat now)
                        then [Heartbeat now] else [])"
    by (auto simp: keepalive_def writeEach_distinct)
next
  assume "distinct (sseClients s)"
  then show "distinct (sseClients (step S e tgs s op))" by (rule step_distinct)
next
  show "sseClients (keepalive fails now s) = sseClients s" by (simp add: keepalive_frame)
  show "sseClients (pollTick S e tgs d1 d2 st fails' now' s) = sseClients s"
    by (simp add: pollTick_frame)
  show "sseClients (on_close c0 s) = removeAll c0 (sseClients s)"
    by (simp add: on_close_def set_delete_def)
next
  assume "\<forall>c. op \<noteq> Close c"
  then show "set (sseClients s) \<subseteq> set (sseClients (step S e tgs s op))"
    by (rule step_keeps_clients)
qed

theorem keepalive_isolation_witness:
  "wire (keepalive (\<lambda>c ev. c = 0) 3000 (initial\<lparr>sseClients := [0, 1, 2]\<rparr>)) 0 = [] \<and>
   wire (keepalive (\<lambda>c ev. c = 0) 3000 (initial\<lparr>sseClients := [0, 1, 2]\<rparr>)) 1 = [Heartbeat 3000] \<and>
   wire (keepalive (\<lambda>c ev. c = 0) 3000 (initial\<lparr>sseClients := [0, 1, 2]\<rparr>)) 2 = [Heartbeat 3000] \<and>
   sseClients (keepalive (\<lambda>c ev. c = 0) 3000 (initial\<lparr>sseClients := [0, 1, 2]\<rparr>)) = [0, 1, 2] \<and>
   sseClients (on_close 0 (initial\<lparr>sseClients := [0, 1, 2]\<rparr>)) = [1, 2]"
  using keepalive_isolation [of "initial\<lparr>sseClients := [0, 1, 2]\<rparr>" "\<lambda>c ev. c = 0" 3000
      "\<lambda>x. NaN" "\<lparr>env_SSE_POLL_MS = None, env_HEARTBEAT_TIMEOUT_MS = None\<rparr>" "[]"
      "KeepAlive (\<lambda>c ev. c = 0) 3000" "Inl Thrown" "Inl Thrown" "Inr None" "\<lambda>c ev. c = 0" 1000 0]
  by (simp add: initial_def)

text \<open>
  Claim C2 as stated fails on both counts. With the clients 0 and 1 registered and the
  writes to client 0 throwing, client 0 is still registered after a keepalive and after
  a tick, and the tick delivers nothing to client 1, which is sent the patch and the
  comms event when no write throws.
\<close>

theorem broadcast_failure_counterexample:
  "sseClients (keepalive (\<lambda>c ev. c = 0) 3000 (initial\<lparr>sseClients := [0, 1]\<rparr>)) = [0, 1] \<and>
   sseClients (pollTick (\<lambda>x. NaN) \<lparr>env_SSE_POLL_MS = None, env_HEARTBEAT_TIMEOUT_MS = None\<rparr>
       [''TOHMI_Speed''] (Inr (Table [''TOHMI_Speed'' \<mapsto> Raw (PNum (Fin 5))]))
       (Inr (Table [''TOHMI_Speed'' \<mapsto> Raw (PNum (Fin 5))])) (Inr None) (\<lambda>c ev. c = 0) 1000
       (initial\<lparr>sseClients := [0, 1]\<rparr>)) = [0, 1] \<and>
   wire (pollTick (\<lambda>x. NaN) \<lparr>env_SSE_POLL_MS = None, env_HEARTBEAT_TIMEOUT_MS = None\<rparr>
       [''TOHMI_Speed''] (Inr (Table [''TOHMI_Speed'' \<mapsto> Raw (PNum (Fin 5))]))
       (Inr (Table [''TOHMI_Speed'' \<mapsto> Raw (PNum (Fin 5))])) (Inr None) (\<lambda>c ev. c = 0) 1000
       (initial\<lparr>sseClients := [0, 1]\<rparr>)) 1 = [] \<and>
   wire (pollTick (\<lambda>x. NaN) \<lparr>env_SSE_POLL_MS = None, env_HEARTBEAT_TIMEOUT_MS = None\<rparr>
       [''TOHMI_Speed''] (Inr (Table [''TOHMI_Speed'' \<mapsto> Raw (PNum (Fin 5))]))
       (Inr (Table [''TOHMI_Speed'' \<mapsto> Raw (PNum (Fin 5))])) (Inr None) (\<lambda>c ev. False) 1000
       (initial\<lparr>sseClients := [0, 1]\<rparr>)) 1
     = [Patch [\<lparr>u_tagId = ''TOHMI_Speed'', u_value = PNum (Fin 5), u_ts = 1000\<rparr>],
        PlcComms \<lparr>p_ok = True, p_ts = 1000, p_tag = ''TOHMI_CRC_Handshake'', p_value = PNull,
                   p_timeoutMs = 1500\<rparr>]"
  by (simp add: pollTick_Inr diffPatch_def commsEvent_def computePlcCommsState_Inr
        diffTags_def diffOne_def valueChanged_def Let_def initial_def sseWrite_def hbTag_of_def
        beatDetected_def classify_TOHMI_CRC_Handshake HEARTBEAT_TIMEOUT_MS_def POLL_MS_def
        keepalive_def coalesce_def nullish_def)

lemma initialUpdates_tags: "map u_tagId (initialUpdates data tgs now) = tgs"
  by (simp add: initialUpdates_def buildSnapshot_def comp_def)

lemma initialUpdates_values:
  "\<forall>u \<in> set (initialUpdates data tgs now). u_value u = rd_value (readOne data (u_tagId u))"
  by (auto simp: initialUpdates_def buildSnapshot_def)

lemma initialUpdates_empty: "(initialUpdates data tgs now = []) = (tgs = [])"
  by (simp add: initialUpdates_def buildSnapshot_def)

lemma hmi_data_ok_wire:
  assumes "\<forall>ev. \<not> fails c ev"
  shows "wire (hmi_data S e tgs c opc (Inr data) (Inr data2) (Inr hb) fails now s) c =
       wire s c @ Hello now opc (POLL_MS e) #
         (if tgs = [] then [] else [Patch (initialUpdates data tgs now)]) @
         [PlcComms (snd (projr (computePlcCommsState S e (Inr data2) (Inr hb) True now s)))]"
  using assms
  by (simp add: hmi_data_def sendInitial_def sendComms_def Let_def computePlcCommsState_Inr
        startPolling_frame sseWrite_def initialUpdates_empty)

lemma hmi_data_registers:
  "\<not> fails c (Hello now opc (POLL_MS e)) \<Longrightarrow>
   c \<in> set (sseClients (hmi_data S e tgs c opc d1 d2 st fails now s)) \<and>
   pollTimer (hmi_data S e tgs c opc d1 d2 st fails now s)"
  by (simp add: hmi_data_def Let_def startPolling_frame sendInitial_frame set_add_def)

lemma computePlcCommsState_wire:
  "computePlcCommsState S e d st adv now (s\<lparr>wire := w\<rparr>) =
     (case computePlcCommsState S e d st adv now s of
        Inl x \<Rightarrow> Inl x
      | Inr r \<Rightarrow> Inr ((fst r)\<lparr>wire := w\<rparr>, snd r))"
  by (cases d; cases st) (simp_all add: computePlcCommsState_Inr)

lemma comms_part_wire:
  "(case computePlcCommsState S e d2 st True now (s\<lparr>wire := w\<rparr>) of
      Inl x \<Rightarrow> []
    | Inr r \<Rightarrow> if fails c (PlcComms (snd r)) then [] else [PlcComms (snd r)]) =
   (case computePlcCommsState S e d2 st True now s of
      Inl x \<Rightarrow> []
    | Inr r \<Rightarrow> if fails c (PlcComms (snd r)) then [] else [PlcComms (snd r)])"
  by (cases "computePlcCommsState S e d2 st True now s") (simp_all add: computePlcCommsState_wire)

lemma sendComms_wire:
  "wire (sendComms S e c d2 st fails now s) c =
     wire s c @
       (case computePlcCommsState S e d2 st True now s of
          Inl x \<Rightarrow> []
        | Inr r \<Rightarrow> if fails c (PlcComms (snd r)) then [] else [PlcComms (snd r)])"
  by (cases "computePlcCommsState S e d2 st True now s")
    (simp_all add: sendComms_def computePlcCommsState_frame sseWrite_def)

lemma sendInitial_wire:
  "wire (sendInitial S e tgs c d1 d2 st fails now s) c =
     wire s c @
       (case d1 of
          Inl x \<Rightarrow> []
        | Inr data \<Rightarrow>
            if tgs \<noteq> [] \<and> fails c (Patch (initialUpdates data tgs now)) then []
            else (if tgs = [] then [] else [Patch (initialUpdates data tgs now)]) @
                 (case computePlcCommsState S e d2 st True now s of
                    Inl x \<Rightarrow> []
                  | Inr r \<Rightarrow> if fails c (PlcComms (snd r)) then [] else [PlcComms (snd r)]))"
proof (cases d1)
  case (Inl x)
  then show ?thesis by (simp add: sendInitial_def)
next
  case (Inr data)
  show ?thesis
  proof (cases "tgs = []")
    case True
    then show ?thesis unfolding Inr
      by (simp add: sendInitial_def Let_def initialUpdates_empty sendComms_wire)
  next
    case False
    show ?thesis
    proof (cases "fails c (Patch (initialUpdates data tgs now))")
      case True
      with False show ?thesis unfolding Inr
        by (simp add: sendInitial_def Let_def initialUpdates_empty)
    next
      case nf: False
      with False show ?thesis unfolding Inr
        by (simp add: sendInitial_def Let_def initialUpdates_empty sendComms_wire
              comms_part_wire sseWrite_def)
    qed
  qed
qed

lemma hmi_data_hello_fails:
  "fails c (Hello now opc (POLL_MS e)) \<Longrightarrow> hmi_data S e tgs c opc d1 d2 st fails now s = s"
  by (simp add: hmi_data_def)

lemma hmi_data_wire:
  assumes "\<not> fails c (Hello now opc (POLL_MS e))"
  shows "wire (hmi_data S e tgs c opc d1 d2 st fails now s) c =
     wire s c @ Hello now opc (POLL_MS e) #
       (case d1 of
          Inl x \<Rightarrow> []
        | Inr data \<Rightarrow>
            if tgs \<noteq> [] \<and> fails c (Patch (initialUpdates data tgs now)) then []
            else (if tgs = [] then [] else [Patch (initialUpdates data tgs now)]) @
                 (case computePlcCommsState S e d2 st True now s of
                    Inl x \<Rightarrow> []
                  | Inr r \<Rightarrow> if fails c (PlcComms (snd r)) then [] else [PlcComms (snd r)]))"
proof -
  let ?s0 = "s\<lparr>wire := sseWrite c (Hello now opc (POLL_MS e)) (wire s)\<rparr>"
  have "wire (hmi_data S e tgs c opc d1 d2 st fails now s) c =
        wire (sendInitial S e tgs c d1 d2 st fails now ?s0) c"
    using assms by (simp add: hmi_data_def Let_def startPolling_frame)
  also have "\<dots> = wire ?s0 c @
       (case d1 of
          Inl x \<Rightarrow> []
        | Inr data \<Rightarrow>
            if tgs \<noteq> [] \<and> fails c (Patch (initialUpdates data tgs now)) then []
            else (if tgs = [] then [] else [Patch (initialUpdates data tgs now)]) @
                 (case computePlcCommsState S e d2 st True now ?s0 of
                    Inl x \<Rightarrow> []
                  | Inr r \<Rightarrow> if fails c (PlcComms (snd r)) then [] else [PlcComms (snd r)]))"
    by (rule sendInitial_wire)
  also have "\<dots> = wire s c @ Hello now opc (POLL_MS e) #
       (case d1 of
          Inl x \<Rightarrow> []
        | Inr data \<Rightarrow>
            if tgs \<noteq> [] \<and> fails c (Patch (initialUpdates data tgs now)) then []
            else (if tgs = [] then [] else [Patch (initialUpdates data tgs now)]) @
                 (case computePlcCommsState S e d2 st True now s of
                    Inl x \<Rightarrow> []
                  | Inr r \<Rightarrow> if fails c (PlcComms (snd r)) then [] else [PlcComms (snd r)]))"
    unfolding comms_part_wire by (simp add: sseWrite_def)
  finally show ?thesis .
qed

lemma hmi_data_other_wire:
  "c' \<noteq> c \<Longrightarrow> wire (hmi_data S e tgs c opc d1 d2 st fails now s) c' = wire s c'"
proof -
  assume n: "c' \<noteq> c"
  have sc: "\<And>s. wire (sendComms S e c d2 st fails now s) c' = wire s c'"
  proof -
    fix s
    show "wire (sendComms S e c d2 st fails now s) c' = wire s c'"
      using n by (cases "computePlcCommsState S e d2 st True now s")
        (simp_all add: sendComms_def computePlcCommsState_frame sseWrite_def)
  qed
  have si: "\<And>s. wire (sendInitial S e tgs c d1 d2 st fails now s) c' = wire s c'"
  proof -
    fix s
    show "wire (sendInitial S e tgs c d1 d2 st fails now s) c' = wire s c'"
      using n by (cases d1) (simp_all add: sendInitial_def Let_def sc sseWrite_def)
  qed
  show ?thesis
    using n by (simp add: hmi_data_def Let_def startPolling_frame si sseWrite_def)
qed

lemma sendComms_lastBeatTs:
  "computePlcCommsState S e d2 st True now s = Inr r \<Longrightarrow>
   lastBeatTs (sendComms S e c d2 st fails now s) = lastBeatTs (fst r)"
  by (simp add: sendComms_def)

lemma hmi_data_lastBeatTs:
  assumes h: "\<not> fails c (Hello now opc (POLL_MS e))"
    and p: "\<not> (tgs \<noteq> [] \<and> fails c (Patch (initialUpdates data tgs now)))"
    and r: "computePlcCommsState S e d2 st True now s = Inr r"
  shows "lastBeatTs (hmi_data S e tgs c opc (Inr data) d2 st fails now s) = lastBeatTs (fst r)"
proof -
  have w: "\<And>w. computePlcCommsState S e d2 st True now (s\<lparr>wire := w\<rparr>) =
      Inr ((fst r)\<lparr>wire := w\<rparr>, snd r)"
    by (simp add: computePlcCommsState_wire r)
  have "\<And>w. lastBeatTs (sendComms S e c d2 st fails now (s\<lparr>wire := w\<rparr>)) = lastBeatTs (fst r)"
    using sendComms_lastBeatTs [OF w] by simp
  then show ?thesis
    using h p by (auto simp: hmi_data_def sendInitial_def Let_def startPolling_frame
        initialUpdates_empty)
qed

text \<open>
  Claim C7, as amended. A request to the streaming endpoint whose \<^verbatim>\<open>hello\<close> write throws
  changes nothing: nothing is delivered and the client is not registered. Otherwise the
  client is sent \<^verbatim>\<open>hello\<close> first, is registered, and the poll timer is armed, whatever the
  queries do. After \<^verbatim>\<open>hello\<close> it is sent nothing more when the upstream query of line 419
  throws or the write of the initial patch throws; otherwise it is sent, if the registry
  is not empty, one \<^verbatim>\<open>patch\<close> with an entry for every tag of the registry in registry
  order, each with the value read, and then, if the second upstream query and the
  settings query return and the write does not throw, the \<^verbatim>\<open>plc-comms\<close> event that
  \<^verbatim>\<open>computePlcCommsState\<close> returns, whose \<open>ok\<close> is the liveness predicate on the state
  the handler leaves. No other client is written to, and whatever later operations
  write to the client comes after these events.
\<close>

theorem subscription_order:
  "(fails c (Hello now opc (POLL_MS e)) \<longrightarrow>
      hmi_data S e tgs c opc d1 d2 st fails now s = s) \<and>
   (\<not> fails c (Hello now opc (POLL_MS e)) \<longrightarrow>
      wire (hmi_data S e tgs c opc d1 d2 st fails now s) c =
        wire s c @ Hello now opc (POLL_MS e) #
          (case d1 of
             Inl x \<Rightarrow> []
           | Inr data \<Rightarrow>
               if tgs \<noteq> [] \<and> fails c (Patch (initialUpdates data tgs now)) then []
               else (if tgs = [] then [] else [Patch (initialUpdates data tgs now)]) @
                    (case computePlcCommsState S e d2 st True now s of
                       Inl x \<Rightarrow> []
                     | Inr r \<Rightarrow> if fails c (PlcComms (snd r)) then [] else [PlcComms (snd r)])) \<and>
      c \<in> set (sseClients (hmi_data S e tgs c opc d1 d2 st fails now s)) \<and>
      pollTimer (hmi_data S e tgs c opc d1 d2 st fails now s)) \<and>
   (\<not> fails c (Hello now opc (POLL_MS e)) \<longrightarrow>
      wire (hmi_data S e tgs c opc (Inl x1) d2 st fails now s) c =
        wire s c @ [Hello now opc (POLL_MS e)]) \<and>
   (\<not> fails c (Hello now opc (POLL_MS e)) \<and> \<not> fails c (Patch (initialUpdates data tgs now)) \<longrightarrow>
      wire (hmi_data S e tgs c opc (Inr data) (Inl x2) st fails now s) c =
        wire s c @ Hello now opc (POLL_MS e) #
          (if tgs = [] then [] else [Patch (initialUpdates data tgs now)])) \<and>
   ((\<forall>ev. \<not> fails c ev) \<longrightarrow>
      wire (hmi_data S e tgs c opc (Inr data) (Inr data2) (Inr hb) fails now s) c =
        wire s c @ Hello now opc (POLL_MS e) #
          (if tgs = [] then [] else [Patch (initialUpdates data tgs now)]) @
          [PlcComms (snd (projr (computePlcCommsState S e (Inr data2) (Inr hb) True now s)))]) \<and>
   (\<forall>c'. c' \<noteq> c \<longrightarrow> wire (hmi_data S e tgs c opc d1 d2 st fails now s) c' = wire s c') \<and>
   map u_tagId (initialUpdates data tgs now) = tgs \<and>
   (\<forall>u \<in> set (initialUpdates data tgs now). u_value u = rd_value (readOne data (u_tagId u))) \<and>
   (\<not> fails c (Hello now opc (POLL_MS e)) \<and>
    \<not> (tgs \<noteq> [] \<and> fails c (Patch (initialUpdates data tgs now))) \<and>
    computePlcCommsState S e d2 st True now s = Inr r \<longrightarrow>
      p_ok (snd r) =
        (\<exists>t. lastBeatTs (hmi_data S e tgs c opc (Inr data) d2 st fails now s) = Some t \<and>
             now - t \<le> HEARTBEAT_TIMEOUT_MS e)) \<and>
   (\<forall>ops. \<exists>evs.
      wire (run S e tgs (hmi_data S e tgs c opc d1 d2 st fails now s) ops) c =
      wire (hmi_data S e tgs c opc d1 d2 st fails now s) c @ evs)"
proof (intro conjI impI allI)
  assume "fails c (Hello now opc (POLL_MS e))"
  then show "hmi_data S e tgs c opc d1 d2 st fails now s = s" by (rule hmi_data_hello_fails)
next
  assume h: "\<not> fails c (Hello now opc (POLL_MS e))"
  then show "wire (hmi_data S e tgs c opc d1 d2 st fails now s) c =
        wire s c @ Hello now opc (POLL_MS e) #
          (case d1 of
             Inl x \<Rightarrow> []
           | Inr data \<Rightarrow>
               if tgs \<noteq> [] \<and> fails c (Patch (initialUpdates data tgs now)) then []
               else (if tgs = [] then [] else [Patch (initialUpdates data tgs now)]) @
                    (case computePlcCommsState S e d2 st True now s of
                       Inl x \<Rightarrow> []
                     | Inr r \<Rightarrow> if fails c (PlcComms (snd r)) then [] else [PlcComms (snd r)]))"
    using hmi_data_wire [of fails c now opc e S tgs d1 d2 st s] by simp
  from h hmi_data_registers [of fails c now opc e S tgs d1 d2 st s]
  show "c \<in> set (sseClients (hmi_data S e tgs c opc d1 d2 st fails now s))"
    and "pollTimer (hmi_data S e tgs c opc d1 d2 st fails now s)"
    by simp_all
next
  assume h: "\<not> fails c (Hello now opc (POLL_MS e))"
  show "wire (hmi_data S e tgs c opc (Inl x1) d2 st fails now s) c =
        wire s c @ [Hello now opc (POLL_MS e)]"
    using h by (simp add: hmi_data_wire)
next
  assume h: "\<not> fails c (Hello now opc (POLL_MS e)) \<and> \<not> fails c (Patch (initialUpdates data tgs now))"
  then have h1: "\<not> fails c (Hello now opc (POLL_MS e))" by simp
  from h h1 show "wire (hmi_data S e tgs c opc (Inr data) (Inl x2) st fails now s) c =
        wire s c @ Hello now opc (POLL_MS e) #
          (if tgs = [] then [] else [Patch (initialUpdates data tgs now)])"
    by (simp add: hmi_data_wire)
next
  assume nf: "\<forall>ev. \<not> fails c ev"
  then show "wire (hmi_data S e tgs c opc (Inr data) (Inr data2) (Inr hb) fails now s) c =
       wire s c @ Hello now opc (POLL_MS e) #
         (if tgs = [] then [] else [Patch (initialUpdates data tgs now)]) @
         [PlcComms (snd (projr (computePlcCommsState S e (Inr data2) (Inr hb) True now s)))]"
    by (rule hmi_data_ok_wire)
next
  fix c'
  assume "c' \<noteq> c"
  then show "wire (hmi_data S e tgs c opc d1 d2 st fails now s) c' = wire s c'"
    by (rule hmi_data_other_wire)
next
  show "map u_tagId (initialUpdates data tgs now) = tgs" by (rule initialUpdates_tags)
  show "\<forall>u \<in> set (initialUpdates data tgs now). u_value u = rd_value (readOne data (u_tagId u))"
    by (rule initialUpdates_values)
next
  assume a: "\<not> fails c (Hello now opc (POLL_MS e)) \<and>
    \<not> (tgs \<noteq> [] \<and> fails c (Patch (initialUpdates data tgs now))) \<and>
    computePlcCommsState S e d2 st True now s = Inr r"
  then have r: "computePlcCommsState S e d2 st True now s = Inr (fst r, snd r)" by simp
  from a have "lastBeatTs (hmi_data S e tgs c opc (Inr data) d2 st fails now s) = lastBeatTs (fst r)"
    by (intro hmi_data_lastBeatTs) simp_all
  with computePlcCommsState_ok [OF r]
  show "p_ok (snd r) =
        (\<exists>t. lastBeatTs (hmi_data S e tgs c opc (Inr data) d2 st fails now s) = Some t \<and>
             now - t \<le> HEARTBEAT_TIMEOUT_MS e)"
    by simp
next
  fix ops
  show "\<exists>evs.
      wire (run S e tgs (hmi_data S e tgs c opc d1 d2 st fails now s) ops) c =
      wire (hmi_data S e tgs c opc d1 d2 st fails now s) c @ evs"
    by (rule run_wire_appends)
qed

theorem subscription_order_witness:
  "wire (hmi_data (\<lambda>x. NaN) \<lparr>env_SSE_POLL_MS = None, env_HEARTBEAT_TIMEOUT_MS = None\<rparr>
       [''TOHMI_Speed''] 1 ''ok''
       (Inr (Table [''TOHMI_Speed'' \<mapsto> Raw (PNum (Fin 5)), ''TOHMI_CRC_Handshake'' \<mapsto> Raw (PNum (Fin 1))]))
       (Inr (Table [''TOHMI_Speed'' \<mapsto> Raw (PNum (Fin 5)), ''TOHMI_CRC_Handshake'' \<mapsto> Raw (PNum (Fin 1))]))
       (Inr None) (\<lambda>c ev. False) 1000 initial) 1
     = [Hello 1000 ''ok'' 250,
        Patch [\<lparr>u_tagId = ''TOHMI_Speed'', u_value = PNum (Fin 5), u_ts = 1000\<rparr>],
        PlcComms \<lparr>p_ok = True, p_ts = 1000, p_tag = ''TOHMI_CRC_Handshake'', p_value = PNum (Fin 1),
                   p_timeoutMs = 1500\<rparr>] \<and>
   wire (hmi_data (\<lambda>x. NaN) \<lparr>env_SSE_POLL_MS = None, env_HEARTBEAT_TIMEOUT_MS = None\<rparr>
       [''TOHMI_Speed''] 1 ''ok''
       (Inr (Table [''TOHMI_Speed'' \<mapsto> Raw (PNum (Fin 5))])) (Inl Thrown)
       (Inr None) (\<lambda>c ev. False) 1000 initial) 1
     = [Hello 1000 ''ok'' 250,
        Patch [\<lparr>u_tagId = ''TOHMI_Speed'', u_value = PNum (Fin 5), u_ts = 1000\<rparr>]] \<and>
   hmi_data (\<lambda>x. NaN) \<lparr>env_SSE_POLL_MS = None, env_HEARTBEAT_TIMEOUT_MS = None\<rparr>
       [''TOHMI_Speed''] 1 ''ok''
       (Inr (Table [''TOHMI_Speed'' \<mapsto> Raw (PNum (Fin 5))])) (Inl Thrown)
       (Inr None) (\<lambda>c ev. True) 1000 initial = initial"
proof -
  let ?e = "\<lparr>env_SSE_POLL_MS = None, env_HEARTBEAT_TIMEOUT_MS = None\<rparr>"
  let ?d = "Table [''TOHMI_Speed'' \<mapsto> Raw (PNum (Fin 5)), ''TOHMI_CRC_Handshake'' \<mapsto> Raw (PNum (Fin 1))]"
  let ?d' = "Table [''TOHMI_Speed'' \<mapsto> Raw (PNum (Fin 5))]"
  have iu: "initialUpdates ?d [''TOHMI_Speed''] 1000 =
        [\<lparr>u_tagId = ''TOHMI_Speed'', u_value = PNum (Fin 5), u_ts = 1000\<rparr>]"
    "initialUpdates ?d' [''TOHMI_Speed''] 1000 =
        [\<lparr>u_tagId = ''TOHMI_Speed'', u_value = PNum (Fin 5), u_ts = 1000\<rparr>]"
    by (simp_all add: initialUpdates_def buildSnapshot_def)
  have a: "wire (hmi_data (\<lambda>x. NaN) ?e [''TOHMI_Speed''] 1 ''ok'' (Inr ?d) (Inr ?d) (Inr None)
        (\<lambda>c ev. False) 1000 initial) 1
     = [Hello 1000 ''ok'' 250,
        Patch [\<lparr>u_tagId = ''TOHMI_Speed'', u_value = PNum (Fin 5), u_ts = 1000\<rparr>],
        PlcComms \<lparr>p_ok = True, p_ts = 1000, p_tag = ''TOHMI_CRC_Handshake'', p_value = PNum (Fin 1),
                   p_timeoutMs = 1500\<rparr>]"
    using subscription_order [where fails = "\<lambda>c ev. False" and c = 1 and S = "\<lambda>x. NaN" and e = ?e
        and tgs = "[''TOHMI_Speed'']" and opc = "''ok''" and now = 1000 and s = initial
        and data = ?d and ?data2.0 = ?d and hb = None,
        THEN conjunct2, THEN conjunct2, THEN conjunct2, THEN conjunct2, THEN conjunct1]
    by (simp add: iu initial_def computePlcCommsState_Inr hbTag_of_def beatDetected_def
          classify_TOHMI_CRC_Handshake HEARTBEAT_TIMEOUT_MS_def POLL_MS_def coalesce_def
          nullish_def)
  have b: "wire (hmi_data (\<lambda>x. NaN) ?e [''TOHMI_Speed''] 1 ''ok'' (Inr ?d') (Inl Thrown) (Inr None)
        (\<lambda>c ev. False) 1000 initial) 1
     = [Hello 1000 ''ok'' 250,
        Patch [\<lparr>u_tagId = ''TOHMI_Speed'', u_value = PNum (Fin 5), u_ts = 1000\<rparr>]]"
    using subscription_order [where fails = "\<lambda>c ev. False" and c = 1 and S = "\<lambda>x. NaN" and e = ?e
        and tgs = "[''TOHMI_Speed'']" and opc = "''ok''" and now = 1000 and s = initial
        and data = ?d' and ?x2.0 = Thrown and st = "Inr None",
        THEN conjunct2, THEN conjunct2, THEN conjunct2, THEN conjunct1]
    by (simp add: iu initial_def POLL_MS_def)
  have c: "hmi_data (\<lambda>x. NaN) ?e [''TOHMI_Speed''] 1 ''ok'' (Inr ?d') (Inl Thrown) (Inr None)
        (\<lambda>c ev. True) 1000 initial = initial"
    using subscription_order [where fails = "\<lambda>c ev. True" and c = 1 and S = "\<lambda>x. NaN" and e = ?e
        and tgs = "[''TOHMI_Speed'']" and opc = "''ok''" and now = 1000 and s = initial
        and ?d1.0 = "Inr ?d'" and ?d2.0 = "Inl Thrown" and st = "Inr None", THEN conjunct1]
    by simp
  from a b c show ?thesis by (intro conjI)
qed

text \<open>
  Claim C7 as stated fails in two cases. When the upstream query of line 419 throws, the
  \<^verbatim>\<open>catch\<close> of line 432 drops the exception: the client is sent \<^verbatim>\<open>hello\<close> only, and is
  registered all the same. When the registry has no tag, the guard of line 425 sends no
  initial patch: the client is sent \<^verbatim>\<open>hello\<close> and then the comms event.
\<close>

theorem subscription_counterexample:
  "wire (hmi_data (\<lambda>x. NaN) \<lparr>env_SSE_POLL_MS = None, env_HEARTBEAT_TIMEOUT_MS = None\<rparr>
       [''TOHMI_Speed''] 1 ''ok'' (Inl Thrown) (Inl Thrown) (Inr None) (\<lambda>c ev. False) 1000 initial) 1
     = [Hello 1000 ''ok'' 250] \<and>
   sseClients (hmi_data (\<lambda>x. NaN) \<lparr>env_SSE_POLL_MS = None, env_HEARTBEAT_TIMEOUT_MS = None\<rparr>
       [''TOHMI_Speed''] 1 ''ok'' (Inl Thrown) (Inl Thrown) (Inr None) (\<lambda>c ev. False) 1000 initial)
     = [1] \<and>
   wire (hmi_data (\<lambda>x. NaN) \<lparr>env_SSE_POLL_MS = None, env_HEARTBEAT_TIMEOUT_MS = None\<rparr>
       [] 1 ''ok''
       (Inr (Table [''TOHMI_CRC_Handshake'' \<mapsto> Raw (PNum (Fin 1))]))
       (Inr (Table [''TOHMI_CRC_Handshake'' \<mapsto> Raw (PNum (Fin 1))]))
       (Inr None) (\<lambda>c ev. False) 1000 initial) 1
     = [Hello 1000 ''ok'' 250,
        PlcComms \<lparr>p_ok = True, p_ts = 1000, p_tag = ''TOHMI_CRC_Handshake'', p_value = PNum (Fin 1),
                   p_timeoutMs = 1500\<rparr>]"
  by (simp add: initial_def computePlcCommsState_Inr hbTag_of_def beatDetected_def
        classify_TOHMI_CRC_Handshake HEARTBEAT_TIMEOUT_MS_def POLL_MS_def initialUpdates_def
        buildSnapshot_def coalesce_def nullish_def hmi_data_def sendInitial_def sendComms_def
        Let_def startPolling_def set_add_def sseWrite_def)

section \<open>Properties of the template resolver\<close>

lemma replaceHashes_no_hash: "CHR ''#'' \<notin> set pre \<Longrightarrow> replaceHashes pre caps i = pre"
  by (induction pre) auto

lemma replaceHashes_next:
  "CHR ''#'' \<notin> set pre \<Longrightarrow>
   replaceHashes (pre @ CHR ''#'' # rest) caps i =
     pre @ (if i < length caps then caps ! i else []) @ replaceHashes rest caps (Suc i)"
  by (induction pre) auto

lemma applyCaptures_no_hash: "CHR ''#'' \<notin> set str \<Longrightarrow> applyCaptures str caps = str"
  by (simp add: applyCaptures_def replaceHashes_no_hash)

lemma materializeTemplate_fields:
  assumes "tpl ''tagId'' = Some (JStr pattern)"
  shows "\<exists>m. materializeTemplate tpl concreteTag = Inr m \<and>
      m ''tagId'' = Some (JStr concreteTag) \<and>
      m ''label'' =
        (case tpl ''label'' of
           Some (JStr str) \<Rightarrow>
             Some (JStr (applyCaptures str
               (case captureNumbers concreteTag pattern of None \<Rightarrow> [] | Some cs \<Rightarrow> cs)))
         | other \<Rightarrow> other) \<and>
      m ''description'' =
        (case tpl ''description'' of
           Some (JStr str) \<Rightarrow>
             Some (JStr (applyCaptures str
               (case captureNumbers concreteTag pattern of None \<Rightarrow> [] | Some cs \<Rightarrow> cs)))
         | other \<Rightarrow> other) \<and>
      (\<forall>k. k \<noteq> ''tagId'' \<and> k \<noteq> ''label'' \<and> k \<noteq> ''description'' \<longrightarrow> m k = tpl k)"
  using assms
  by (auto simp: materializeTemplate_def applyField_def Let_def split: option.splits json.splits)

text \<open>
  Claim C4, as amended. \<^verbatim>\<open>materializeTemplate\<close> copies the template, sets \<open>tagId\<close> to the
  concrete tag and leaves every field but \<open>label\<close> and \<open>description\<close> as it is; each of
  these two, when it is a string, becomes \<^verbatim>\<open>applyCaptures\<close> of it on the digits captured
  from the concrete tag, each field on its own: the captures are consumed from left to
  right within a field, and every field starts again at the first capture. A field
  with no placeholder is unchanged. When at least one digit was captured, the
  placeholder occurrences beyond the number of captures become the empty string; when
  none was captured, the field is returned as it is, placeholders included.
\<close>

theorem materialize_substitution:
  "(tpl ''tagId'' = Some (JStr pattern) \<longrightarrow>
      (\<exists>m. materializeTemplate tpl concreteTag = Inr m \<and>
         m ''tagId'' = Some (JStr concreteTag) \<and>
         m ''label'' =
           (case tpl ''label'' of
              Some (JStr str) \<Rightarrow>
                Some (JStr (applyCaptures str
                  (case captureNumbers concreteTag pattern of None \<Rightarrow> [] | Some cs \<Rightarrow> cs)))
            | other \<Rightarrow> other) \<and>
         m ''description'' =
           (case tpl ''description'' of
              Some (JStr str) \<Rightarrow>
                Some (JStr (applyCaptures str
                  (case captureNumbers concreteTag pattern of None \<Rightarrow> [] | Some cs \<Rightarrow> cs)))
            | other \<Rightarrow> other) \<and>
         (\<forall>k. k \<noteq> ''tagId'' \<and> k \<noteq> ''label'' \<and> k \<noteq> ''description'' \<longrightarrow> m k = tpl k))) \<and>
   (caps = [] \<longrightarrow> applyCaptures str caps = str) \<and>
   (CHR ''#'' \<notin> set str \<longrightarrow> applyCaptures str caps = str) \<and>
   (caps \<noteq> [] \<longrightarrow> applyCaptures str caps = replaceHashes str caps 0) \<and>
   (CHR ''#'' \<notin> set pre \<longrightarrow>
      replaceHashes (pre @ CHR ''#'' # rest) caps i =
        pre @ (if i < length caps then caps ! i else []) @ replaceHashes rest caps (Suc i)) \<and>
   (CHR ''#'' \<notin> set pre \<longrightarrow> replaceHashes pre caps i = pre)"
proof (intro conjI impI)
  assume "tpl ''tagId'' = Some (JStr pattern)"
  then show "\<exists>m. materializeTemplate tpl concreteTag = Inr m \<and>
         m ''tagId'' = Some (JStr concreteTag) \<and>
         m ''label'' =
           (case tpl ''label'' of
              Some (JStr str) \<Rightarrow>
                Some (JStr (applyCaptures str
                  (case captureNumbers concreteTag pattern of None \<Rightarrow> [] | Some cs \<Rightarrow> cs)))
            | other \<Rightarrow> other) \<and>
         m ''description'' =
           (case tpl ''description'' of
              Some (JStr str) \<Rightarrow>
                Some (JStr (applyCaptures str
                  (case captureNumbers concreteTag pattern of None \<Rightarrow> [] | Some cs \<Rightarrow> cs)))
            | other \<Rightarrow> other) \<and>
         (\<forall>k. k \<noteq> ''tagId'' \<and> k \<noteq> ''label'' \<and> k \<noteq> ''description'' \<longrightarrow> m k = tpl k)"
    by (rule materializeTemplate_fields)
next
  assume "caps = []"
  then show "applyCaptures str caps = str" by (simp add: applyCaptures_def)
next
  assume "CHR ''#'' \<notin> set str"
  then show "applyCaptures str caps = str" by (rule applyCaptures_no_hash)
next
  assume "caps \<noteq> []"
  then show "applyCaptures str caps = replaceHashes str caps 0"
    by (cases str) (simp_all add: applyCaptures_def)
next
  assume "CHR ''#'' \<notin> set pre"
  then show "replaceHashes (pre @ CHR ''#'' # rest) caps i =
        pre @ (if i < length caps then caps ! i else []) @ replaceHashes rest caps (Suc i)"
    by (rule replaceHashes_next)
next
  assume "CHR ''#'' \<notin> set pre"
  then show "replaceHashes pre caps i = pre" by (rule replaceHashes_no_hash)
qed

lemma ex_captures:
  "captureNumbers ''Recipe_Feedpoint3_projectName'' ''Recipe_Feedpoint#_projectName'' = Some [''3'']"
  "captureNumbers ''TOHMI_R1_Axis2'' ''TOHMI_R#_Axis#'' = Some [''1'', ''2'']"
  "captureNumbers ''TOHMI_Mode'' ''TOHMI_Mode'' = Some []"
  by code_simp+

lemma ex_apply:
  "applyCaptures ''Feedpoint # project'' [''3''] = ''Feedpoint 3 project''"
  "applyCaptures ''Robot #'' [''1'', ''2''] = ''Robot 1''"
  "applyCaptures ''Axis #'' [''1'', ''2''] = ''Axis 1''"
  "applyCaptures ''Mode #'' [] = ''Mode #''"
  "applyCaptures ''#-#-#'' [''7''] = ''7--''"
  by code_simp+

theorem materialize_substitution_witness:
  "(\<exists>m. materializeTemplate
          [''tagId'' \<mapsto> JStr ''Recipe_Feedpoint#_projectName'', ''label'' \<mapsto> JStr ''Feedpoint # project'',
           ''widget'' \<mapsto> JStr ''text'']
          ''Recipe_Feedpoint3_projectName'' = Inr m \<and>
        m ''tagId'' = Some (JStr ''Recipe_Feedpoint3_projectName'') \<and>
        m ''label'' = Some (JStr ''Feedpoint 3 project'') \<and>
        m ''description'' = None \<and>
        m ''widget'' = Some (JStr ''text'')) \<and>
   applyCaptures ''#-#-#'' [''7''] = ''7--'' \<and>
   replaceHashes ''a#b'' [''7''] 1 = ''ab''"
proof -
  let ?tpl = "[''tagId'' \<mapsto> JStr ''Recipe_Feedpoint#_projectName'', ''label'' \<mapsto> JStr ''Feedpoint # project'',
           ''widget'' \<mapsto> JStr ''text'']"
  note T = materialize_substitution [of ?tpl "''Recipe_Feedpoint#_projectName''"
      "''Recipe_Feedpoint3_projectName''" "[''7'']" "''#-#-#''" "''a''" "''b''" 1]
  have "?tpl ''tagId'' = Some (JStr ''Recipe_Feedpoint#_projectName'')" by simp
  with T obtain m where m: "materializeTemplate ?tpl ''Recipe_Feedpoint3_projectName'' = Inr m"
    "m ''tagId'' = Some (JStr ''Recipe_Feedpoint3_projectName'')"
    "m ''label'' =
           (case ?tpl ''label'' of
              Some (JStr str) \<Rightarrow>
                Some (JStr (applyCaptures str
                  (case captureNumbers ''Recipe_Feedpoint3_projectName'' ''Recipe_Feedpoint#_projectName'' of
                     None \<Rightarrow> [] | Some cs \<Rightarrow> cs)))
            | other \<Rightarrow> other)"
    "m ''description'' =
           (case ?tpl ''description'' of
              Some (JStr str) \<Rightarrow>
                Some (JStr (applyCaptures str
                  (case captureNumbers ''Recipe_Feedpoint3_projectName'' ''Recipe_Feedpoint#_projectName'' of
                     None \<Rightarrow> [] | Some cs \<Rightarrow> cs)))
            | other \<Rightarrow> other)"
    "\<forall>k. k \<noteq> ''tagId'' \<and> k \<noteq> ''label'' \<and> k \<noteq> ''description'' \<longrightarrow> m k = ?tpl k"
    by blast
  from m(3) have l: "m ''label'' = Some (JStr ''Feedpoint 3 project'')"
    by (simp add: ex_captures ex_apply)
  from m(4) have d: "m ''description'' = None" by simp
  from m(5) have w: "m ''widget'' = Some (JStr ''text'')" by simp
  from T have r: "replaceHashes ''a#b'' [''7''] 1 = ''ab''" by simp
  from m(1,2) l d w r ex_apply(5) show ?thesis by blast
qed

text \<open>
  Claim C4 as stated fails on the sharing of the captures and on the placeholders left
  over. For the template \<^verbatim>\<open>TOHMI_R#_Axis#\<close> and the tag \<^verbatim>\<open>TOHMI_R1_Axis2\<close> the captures
  are 1 and 2; the label \<^verbatim>\<open>Robot #\<close> consumes the capture 1, and the description
  \<^verbatim>\<open>Axis #\<close> is given the capture 1 again, where one shared sequence gives it 2. For a
  template without wildcard the label \<^verbatim>\<open>Mode #\<close> keeps its placeholder, where the claim
  replaces it by the empty string.
\<close>

theorem shared_captures_counterexample:
  "captureNumbers ''TOHMI_R1_Axis2'' ''TOHMI_R#_Axis#'' = Some [''1'', ''2''] \<and>
   (case materializeTemplate
          [''tagId'' \<mapsto> JStr ''TOHMI_R#_Axis#'', ''label'' \<mapsto> JStr ''Robot #'',
           ''description'' \<mapsto> JStr ''Axis #''] ''TOHMI_R1_Axis2'' of
      Inl x \<Rightarrow> None | Inr m \<Rightarrow> m ''description'') = Some (JStr ''Axis 1'') \<and>
   spec_Materialize
          [''tagId'' \<mapsto> JStr ''TOHMI_R#_Axis#'', ''label'' \<mapsto> JStr ''Robot #'',
           ''description'' \<mapsto> JStr ''Axis #''] ''TOHMI_R1_Axis2'' [''1'', ''2''] ''description''
     = Some (JStr ''Axis 2'') \<and>
   captureNumbers ''TOHMI_Mode'' ''TOHMI_Mode'' = Some [] \<and>
   (case materializeTemplate [''tagId'' \<mapsto> JStr ''TOHMI_Mode'', ''label'' \<mapsto> JStr ''Mode #'']
          ''TOHMI_Mode'' of
      Inl x \<Rightarrow> None | Inr m \<Rightarrow> m ''label'') = Some (JStr ''Mode #'') \<and>
   spec_Materialize [''tagId'' \<mapsto> JStr ''TOHMI_Mode'', ''label'' \<mapsto> JStr ''Mode #'']
          ''TOHMI_Mode'' [] ''label'' = Some (JStr ''Mode '')"
  by (simp add: ex_captures ex_apply materializeTemplate_def applyField_def spec_Materialize_def
        Let_def)

section \<open>Properties of the registry builder\<close>

lemma hash_not_digit: "\<not> is_digit CHR ''#''"
  by (simp add: is_digit_def)

lemma matchTemplate_self:
  "matchTemplate t t = (if CHR ''#'' \<in> set t then None else Some [])"
  by (induction t) (auto simp: hash_not_digit)

lemma materializeTemplate_fallback:
  "materializeTemplate (fallback t) t = Inr (fallback t)"
  by (auto simp: materializeTemplate_def captureNumbers_def matchTemplate_self applyField_def
        applyCaptures_def fallback_def Let_def fun_eq_iff)

lemma chooseTemplate_None:
  "(chooseTemplate t w = None) = (\<forall>kv \<in> set w. captureNumbers t (fst kv) = None)"
  by (induction w) (auto split: option.splits)

lemma chooseTemplate_Some:
  "chooseTemplate t w = Some tpl \<Longrightarrow> \<exists>k. (k, tpl) \<in> set w"
  by (induction w) (auto split: option.splits)

lemma registerAll_keeps:
  "registerAll w entries reg = Inr reg' \<Longrightarrow> metaByTag reg t = Some m \<Longrightarrow>
   metaByTag reg' t = Some m"
proof (induction entries arbitrary: reg)
  case Nil
  then show ?case by simp
next
  case (Cons en entries)
  from Cons.prems(1) obtain cm where
    r: "registerAll w entries
          (if metaByTag reg (fst en) = None
           then reg\<lparr>tags := tags reg @ [fst en],
                    metaByTag := (metaByTag reg)(fst en \<mapsto> merge cm (snd en))\<rparr>
           else reg) = Inr reg'"
    by (auto simp: Let_def split: sum.splits)
  show ?case
    by (rule Cons.IH [OF r]) (use Cons.prems(2) in auto)
qed

lemma registerAll_tags_keep:
  "registerAll w entries reg = Inr reg' \<Longrightarrow> t \<in> set (tags reg) \<Longrightarrow> t \<in> set (tags reg')"
proof (induction entries arbitrary: reg)
  case Nil
  then show ?case by simp
next
  case (Cons en entries)
  from Cons.prems(1) obtain cm where
    r: "registerAll w entries
          (if metaByTag reg (fst en) = None
           then reg\<lparr>tags := tags reg @ [fst en],
                    metaByTag := (metaByTag reg)(fst en \<mapsto> merge cm (snd en))\<rparr>
           else reg) = Inr reg'"
    by (auto simp: Let_def split: sum.splits)
  show ?case
    by (rule Cons.IH [OF r]) (use Cons.prems(2) in auto)
qed

lemma registerAll_fallback:
  "registerAll w entries reg = Inr reg' \<Longrightarrow> metaByTag reg t = None \<Longrightarrow>
   map_of entries t = Some ov \<Longrightarrow> chooseTemplate t w = None \<Longrightarrow>
   metaByTag reg' t = Some (merge (fallback t) ov) \<and> t \<in> set (tags reg')"
proof (induction entries arbitrary: reg)
  case Nil
  then show ?case by simp
next
  case (Cons en entries)
  show ?case
  proof (cases "fst en = t")
    case True
    with Cons.prems(3) have ov: "snd en = ov" by (cases en) simp
    from Cons.prems(1) True Cons.prems(2,4) have
      r: "registerAll w entries
            (reg\<lparr>tags := tags reg @ [t],
                 metaByTag := (metaByTag reg)(t \<mapsto> merge (fallback t) ov)\<rparr>) = Inr reg'"
      by (simp add: Let_def materializeTemplate_fallback ov)
    from registerAll_keeps [OF r, of t "merge (fallback t) ov"] registerAll_tags_keep [OF r, of t]
    show ?thesis by simp
  next
    case False
    from Cons.prems(1) obtain cm where
      r: "registerAll w entries
            (if metaByTag reg (fst en) = None
             then reg\<lparr>tags := tags reg @ [fst en],
                      metaByTag := (metaByTag reg)(fst en \<mapsto> merge cm (snd en))\<rparr>
             else reg) = Inr reg'"
      by (auto simp: Let_def split: sum.splits)
    from False Cons.prems(3) have m: "map_of entries t = Some ov" by (cases en) simp
    show ?thesis
      by (rule Cons.IH [OF r _ m Cons.prems(4)]) (use False Cons.prems(2) in auto)
  qed
qed

lemma registerAll_total:
  "\<forall>kv \<in> set w. \<exists>p. snd kv ''tagId'' = Some (JStr p) \<Longrightarrow> \<exists>reg'. registerAll w entries reg = Inr reg'"
proof (induction entries arbitrary: reg)
  case Nil
  show ?case by simp
next
  case (Cons en entries)
  have "\<exists>cm. materializeTemplate
          (case chooseTemplate (fst en) w of None \<Rightarrow> fallback (fst en) | Some tpl \<Rightarrow> tpl) (fst en) = Inr cm"
  proof (cases "chooseTemplate (fst en) w")
    case None
    then show ?thesis by (simp add: materializeTemplate_fallback)
  next
    case (Some tpl)
    from chooseTemplate_Some [OF Some] Cons.prems obtain p where "tpl ''tagId'' = Some (JStr p)"
      by fastforce
    with Some show ?thesis by (simp add: materializeTemplate_def Let_def)
  qed
  then obtain cm where cm: "materializeTemplate
          (case chooseTemplate (fst en) w of None \<Rightarrow> fallback (fst en) | Some tpl \<Rightarrow> tpl) (fst en) = Inr cm"
    by blast
  from Cons.IH [OF Cons.prems] show ?case by (simp add: Let_def cm)
qed

lemma registerAll_tags:
  "registerAll w entries reg = Inr reg' \<Longrightarrow> dom (metaByTag reg) = set (tags reg) \<Longrightarrow>
   set (tags reg') = set (tags reg) \<union> fst ` set entries"
proof (induction entries arbitrary: reg)
  case Nil
  then show ?case by simp
next
  case (Cons en entries)
  from Cons.prems(1) obtain cm where
    r: "registerAll w entries
          (if metaByTag reg (fst en) = None
           then reg\<lparr>tags := tags reg @ [fst en],
                    metaByTag := (metaByTag reg)(fst en \<mapsto> merge cm (snd en))\<rparr>
           else reg) = Inr reg'"
    by (auto simp: Let_def split: sum.splits)
  show ?case
  proof (cases "metaByTag reg (fst en) = None")
    case True
    with r have r': "registerAll w entries
          (reg\<lparr>tags := tags reg @ [fst en],
               metaByTag := (metaByTag reg)(fst en \<mapsto> merge cm (snd en))\<rparr>) = Inr reg'"
      by simp
    have d: "dom (metaByTag (reg\<lparr>tags := tags reg @ [fst en],
               metaByTag := (metaByTag reg)(fst en \<mapsto> merge cm (snd en))\<rparr>)) =
             set (tags (reg\<lparr>tags := tags reg @ [fst en],
               metaByTag := (metaByTag reg)(fst en \<mapsto> merge cm (snd en))\<rparr>))"
      using Cons.prems(2) by auto
    from Cons.IH [OF r' d] show ?thesis by auto
  next
    case False
    with r have r': "registerAll w entries reg = Inr reg'" by simp
    from False Cons.prems(2) have "fst en \<in> set (tags reg)" by auto
    with Cons.IH [OF r' Cons.prems(2)] show ?thesis by auto
  qed
qed

text \<open>
  Claim C9, as amended. In the registry built from a layout, every collected tag that no
  template of the table matches is bound to the fallback record
  \<^verbatim>\<open>{ tagId, label: tagId, widget: 'raw', valueType: 'string' }\<close> with the override of its
  first reference, if it has one, merged over it; a tag referenced without override is
  bound to exactly the fallback record. The tags of the registry are the collected
  tags, and the registry is built whenever the layout is collected and every template
  has a string \<open>tagId\<close>.
\<close>

theorem fallback_metadata:
  "(buildRegistry layout widgetsMap = Inr reg \<and> collectConcreteTags layout = Inr entries \<and>
    map_of entries t = Some ov \<and> (\<forall>kv \<in> set widgetsMap. captureNumbers t (fst kv) = None) \<longrightarrow>
      metaByTag reg t = Some (merge (fallback t) ov) \<and> t \<in> set (tags reg)) \<and>
   merge (fallback t) None =
     [''tagId'' \<mapsto> JStr t, ''label'' \<mapsto> JStr t, ''widget'' \<mapsto> JStr ''raw'',
      ''valueType'' \<mapsto> JStr ''string''] \<and>
   (buildRegistry layout widgetsMap = Inr reg \<and> collectConcreteTags layout = Inr entries \<longrightarrow>
      set (tags reg) = fst ` set entries) \<and>
   (collectConcreteTags layout = Inr entries \<and>
    (\<forall>kv \<in> set widgetsMap. \<exists>p. snd kv ''tagId'' = Some (JStr p)) \<longrightarrow>
      (\<exists>r. buildRegistry layout widgetsMap = Inr r))"
proof (intro conjI impI)
  assume a: "buildRegistry layout widgetsMap = Inr reg \<and> collectConcreteTags layout = Inr entries \<and>
    map_of entries t = Some ov \<and> (\<forall>kv \<in> set widgetsMap. captureNumbers t (fst kv) = None)"
  then have r: "registerAll widgetsMap entries \<lparr>tags = [], metaByTag = Map.empty\<rparr> = Inr reg"
    by (auto simp: buildRegistry_def)
  from a have c: "chooseTemplate t widgetsMap = None" by (simp add: chooseTemplate_None)
  from a have m: "map_of entries t = Some ov" by simp
  from registerAll_fallback [OF r _ m c]
  show "metaByTag reg t = Some (merge (fallback t) ov)" and "t \<in> set (tags reg)" by simp_all
next
  show "merge (fallback t) None =
     [''tagId'' \<mapsto> JStr t, ''label'' \<mapsto> JStr t, ''widget'' \<mapsto> JStr ''raw'',
      ''valueType'' \<mapsto> JStr ''string'']"
    by (simp add: merge_def fallback_def)
next
  assume "buildRegistry layout widgetsMap = Inr reg \<and> collectConcreteTags layout = Inr entries"
  then have r: "registerAll widgetsMap entries \<lparr>tags = [], metaByTag = Map.empty\<rparr> = Inr reg"
    by (auto simp: buildRegistry_def)
  from registerAll_tags [OF r] show "set (tags reg) = fst ` set entries" by simp
next
  assume a: "collectConcreteTags layout = Inr entries \<and>
    (\<forall>kv \<in> set widgetsMap. \<exists>p. snd kv ''tagId'' = Some (JStr p))"
  then have "\<exists>r. registerAll widgetsMap entries \<lparr>tags = [], metaByTag = Map.empty\<rparr> = Inr r"
    by (intro registerAll_total) simp
  with a show "\<exists>r. buildRegistry layout widgetsMap = Inr r" by (auto simp: buildRegistry_def)
qed

lemma ex_collect:
  "collectConcreteTags
     (JObj [(''pages'', JArr [JObj [(''sections'', JArr [JObj [(''items'',
        JArr [JStr ''TOHMI_Feedpoint2_currentJob''])]])]])])
   = Inr [(''TOHMI_Feedpoint2_currentJob'', None)]"
  "collectConcreteTags
     (JObj [(''pages'', JArr [JObj [(''sections'', JArr [JObj [(''items'',
        JArr [JObj [(''tagId'', JStr ''TOHMI_Feedpoint2_currentJob''),
                    (''override'', JObj [(''label'', JStr ''Job'')])]])]])]])])
   = Inr [(''TOHMI_Feedpoint2_currentJob'', Some (JObj [(''label'', JStr ''Job'')]))]"
  by code_simp+

lemma ex_no_match:
  "captureNumbers ''TOHMI_Feedpoint2_currentJob'' ''Recipe_Feedpoint#_projectName'' = None"
  by code_simp

theorem fallback_metadata_witness:
  "\<exists>reg. buildRegistry
       (JObj [(''pages'', JArr [JObj [(''sections'', JArr [JObj [(''items'',
          JArr [JStr ''TOHMI_Feedpoint2_currentJob''])]])]])])
       [(''Recipe_Feedpoint#_projectName'',
         [''tagId'' \<mapsto> JStr ''Recipe_Feedpoint#_projectName'', ''label'' \<mapsto> JStr ''Feedpoint # project''])]
     = Inr reg \<and>
     metaByTag reg ''TOHMI_Feedpoint2_currentJob'' =
       Some [''tagId'' \<mapsto> JStr ''TOHMI_Feedpoint2_currentJob'',
             ''label'' \<mapsto> JStr ''TOHMI_Feedpoint2_currentJob'',
             ''widget'' \<mapsto> JStr ''raw'', ''valueType'' \<mapsto> JStr ''string''] \<and>
     tags reg = [''TOHMI_Feedpoint2_currentJob'']"
proof -
  let ?L = "JObj [(''pages'', JArr [JObj [(''sections'', JArr [JObj [(''items'',
          JArr [JStr ''TOHMI_Feedpoint2_currentJob''])]])]])]"
  let ?W = "[(''Recipe_Feedpoint#_projectName'',
         [''tagId'' \<mapsto> JStr ''Recipe_Feedpoint#_projectName'', ''label'' \<mapsto> JStr ''Feedpoint # project''])]"
  let ?t = "''TOHMI_Feedpoint2_currentJob''"
  have tot: "collectConcreteTags ?L = Inr [(?t, None)] \<and>
      (\<forall>kv \<in> set ?W. \<exists>p. snd kv ''tagId'' = Some (JStr p))"
    by (simp add: ex_collect)
  from fallback_metadata [of ?L ?W _ "[(?t, None)]" ?t None] tot
  obtain reg where reg: "buildRegistry ?L ?W = Inr reg" by blast
  have hyp: "buildRegistry ?L ?W = Inr reg \<and> collectConcreteTags ?L = Inr [(?t, None)] \<and>
      map_of [(?t, None)] ?t = Some None \<and> (\<forall>kv \<in> set ?W. captureNumbers ?t (fst kv) = None)"
    by (simp add: reg ex_collect ex_no_match)
  note T = fallback_metadata [of ?L ?W reg "[(?t, None)]" ?t None]
  from T hyp have m: "metaByTag reg ?t = Some (merge (fallback ?t) None)" by blast
  from T have f: "merge (fallback ?t) None =
     [''tagId'' \<mapsto> JStr ?t, ''label'' \<mapsto> JStr ?t, ''widget'' \<mapsto> JStr ''raw'',
      ''valueType'' \<mapsto> JStr ''string'']" by blast
  have tg: "tags reg = [?t]"
    using reg by (auto simp: buildRegistry_def ex_collect Let_def split: sum.splits)
  from reg m f tg show ?thesis by auto
qed

text \<open>
  Claim C9 as stated fails for a reference that carries an override: the layout item
  \<^verbatim>\<open>{ tagId: "TOHMI_Feedpoint2_currentJob", override: { label: "Job" } }\<close> with an empty
  template table gives the tag the label \<^verbatim>\<open>Job\<close>, not its own name.
\<close>

theorem override_counterexample:
  "(case buildRegistry
       (JObj [(''pages'', JArr [JObj [(''sections'', JArr [JObj [(''items'',
          JArr [JObj [(''tagId'', JStr ''TOHMI_Feedpoint2_currentJob''),
                      (''override'', JObj [(''label'', JStr ''Job'')])]])]])]])]) [] of
      Inl x \<Rightarrow> None
    | Inr reg \<Rightarrow> (case metaByTag reg ''TOHMI_Feedpoint2_currentJob'' of
                    None \<Rightarrow> None | Some m \<Rightarrow> m ''label'')) = Some (JStr ''Job'') \<and>
   JStr ''Job'' \<noteq> JStr ''TOHMI_Feedpoint2_currentJob''"
proof -
  have "buildRegistry
       (JObj [(''pages'', JArr [JObj [(''sections'', JArr [JObj [(''items'',
          JArr [JObj [(''tagId'', JStr ''TOHMI_Feedpoint2_currentJob''),
                      (''override'', JObj [(''label'', JStr ''Job'')])]])]])]])]) []
    = Inr \<lparr>tags = [''TOHMI_Feedpoint2_currentJob''],
           metaByTag = [''TOHMI_Feedpoint2_currentJob'' \<mapsto>
             merge (fallback ''TOHMI_Feedpoint2_currentJob'')
               (Some (JObj [(''label'', JStr ''Job'')]))]\<rparr>"
    by (simp add: buildRegistry_def ex_collect Let_def materializeTemplate_fallback)
  then show ?thesis by (simp add: merge_def fallback_def)
qed

end
